theory Spec2Isabelle
  imports Main "HOL-Library.Word"
begin

unbundle bit_operations_syntax

section \<open>Common types\<close>

text \<open>
  A Go byte is an Isabelle \<^typ>\<open>char\<close> (8 bits), so that a \<^verbatim>\<open>[]byte\<close> and a Go \<^verbatim>\<open>string\<close>
  are both a \<^typ>\<open>string\<close> and the conversions between them are the identity.
\<close>

type_synonym byte = char
type_synonym uint32 = "32 word"

text \<open>
  A Go call either returns a value or panics.  Panics are kept as values so that every
  \<^verbatim>\<open>panic(...)\<close> of the source is a branch of the model; the string is the fixed part of
  the panic message.
\<close>

datatype 'a outcome = Panics string | Returns 'a

section \<open>Package base2bufpool: the power-of-two buffer pool\<close>

text \<open>
  Go's \<^verbatim>\<open>uint\<close> is modelled by \<^typ>\<open>nat\<close>.  The only operation of the package that can
  leave the range of a 64-bit word is \<^verbatim>\<open>1 << shift\<close>, which Go evaluates to 0 once the
  shift count reaches the width of the type; \<open>shl1\<close> writes that out.
\<close>

definition shl1 :: "nat \<Rightarrow> nat" where
  "shl1 s = (if s < 64 then 2 ^ s else 0)"

text \<open>\<^verbatim>\<open>bits.Len(x)\<close>: the number of bits needed to represent \<open>x\<close>; 0 for \<open>x = 0\<close>.\<close>

fun bits_Len :: "nat \<Rightarrow> nat" where
  "bits_Len x = (if x = 0 then 0 else Suc (bits_Len (x div 2)))"

text \<open>\<^verbatim>\<open>bits.OnesCount(x)\<close>: the number of one bits of \<open>x\<close>.\<close>

fun bits_OnesCount :: "nat \<Rightarrow> nat" where
  "bits_OnesCount x = (if x = 0 then 0 else x mod 2 + bits_OnesCount (x div 2))"

declare bits_Len.simps [simp del] bits_OnesCount.simps [simp del]

text \<open>The sub-pool of one shift: \<^verbatim>\<open>type pool struct { mtx; bufs [][]byte; shift uint }\<close>.\<close>

record pool =
  bufs :: "byte list list"
  shift :: nat

text \<open>
  \<^verbatim>\<open>type Pool struct { minShift, maxShift uint; pools []pool }\<close>.  A \<^verbatim>\<open>Buffer\<close> refers to
  its \<^verbatim>\<open>Pool\<close> by pointer and \<^verbatim>\<open>put\<close> compares pointers; the model gives every \<open>Pool\<close>
  an identity \<open>pid\<close> in place of its address.
\<close>

record Pool =
  pid :: nat
  minShift :: nat
  maxShift :: nat
  pools :: "pool list"

record Buffer =
  shiftBuf :: "byte list"
  payloadLen :: nat
  bpool :: "nat option"

text \<open>\<^verbatim>\<open>func (p *pool) Put(buf []byte)\<close>\<close>

definition pool_Put :: "pool \<Rightarrow> byte list \<Rightarrow> pool outcome" where
  "pool_Put p buf =
     (if length buf \<noteq> shl1 (shift p) then Panics ''implementation error''
      else if length (bufs p) > 10 then Returns p
      else Returns (p\<lparr>bufs := bufs p @ [buf]\<rparr>))"

text \<open>\<^verbatim>\<open>func (p *pool) Get() []byte\<close>: the last stored buffer, or a fresh zeroed one.\<close>

definition pool_Get :: "pool \<Rightarrow> byte list \<times> pool" where
  "pool_Get p =
     (if length (bufs p) > 0
      then (last (bufs p), p\<lparr>bufs := butlast (bufs p)\<rparr>)
      else (replicate (shl1 (shift p)) (CHR 0x00), p))"

text \<open>\<^verbatim>\<open>func (b Buffer) Bytes() []byte\<close>: slicing beyond the capacity panics in Go.\<close>

definition Bytes :: "Buffer \<Rightarrow> byte list outcome" where
  "Bytes b =
     (if payloadLen b \<le> length (shiftBuf b) then Returns (take (payloadLen b) (shiftBuf b))
      else Panics ''slice bounds out of range'')"

text \<open>\<^verbatim>\<open>func (b *Buffer) Shrink(newPayloadLen uint)\<close>\<close>

definition Shrink :: "Buffer \<Rightarrow> nat \<Rightarrow> Buffer outcome" where
  "Shrink b newPayloadLen =
     (if newPayloadLen > payloadLen b then Panics ''shrink is actually an expand, invalid''
      else Returns (b\<lparr>payloadLen := newPayloadLen\<rparr>))"

text \<open>
  \<^verbatim>\<open>func New(minShift, maxShift uint) *Pool\<close>, allocated at identity \<open>i\<close>.  The number of
  sub-pools is \<^verbatim>\<open>maxShift-minShift+1\<close> in unsigned arithmetic: none for
  \<open>minShift = maxShift + 1\<close>, and for a still larger \<open>minShift\<close> the difference wraps
  around to a length that \<^verbatim>\<open>make\<close> refuses.
\<close>

definition New :: "nat \<Rightarrow> nat \<Rightarrow> nat \<Rightarrow> Pool outcome" where
  "New i minS maxS =
     (if maxS + 1 < minS then Panics ''makeslice: len out of range''
      else Returns \<lparr>pid = i, minShift = minS, maxShift = maxS,
                    pools = map (\<lambda>k. \<lparr>bufs = [], shift = minS + k\<rparr>) [0 ..< maxS + 1 - minS]\<rparr>)"

text \<open>\<^verbatim>\<open>func fittingShift(x uint) uint\<close>\<close>

definition fittingShift :: "nat \<Rightarrow> nat" where
  "fittingShift x =
     (if x = 0 then 0
      else let blen = bits_Len x in
        if shl1 (blen - 1) = x then blen - 1 else blen)"

text \<open>
  \<^verbatim>\<open>func (p *Pool) Get(minSize uint) Buffer\<close>.  The pool is updated in place by the source;
  the model returns it beside the buffer.  An index outside \<^verbatim>\<open>p.pools\<close> panics in Go.
\<close>

definition Get :: "Pool \<Rightarrow> nat \<Rightarrow> (Buffer \<times> Pool) outcome" where
  "Get p minSize =
     (let s = fittingShift minSize in
      if s = 0 then Returns (\<lparr>shiftBuf = [], payloadLen = 0, bpool = None\<rparr>, p)
      else if s < minShift p \<or> s > maxShift p
        then Returns (\<lparr>shiftBuf = replicate (shl1 s) (CHR 0x00), payloadLen = minSize, bpool = None\<rparr>, p)
      else if s - minShift p < length (pools p)
        then (let (buf, sub) = pool_Get (pools p ! (s - minShift p))
              in Returns (\<lparr>shiftBuf = buf, payloadLen = minSize, bpool = Some (pid p)\<rparr>,
                          p\<lparr>pools := (pools p)[s - minShift p := sub]\<rparr>))
      else Panics ''index out of range'')"

text \<open>\<^verbatim>\<open>func (p *Pool) put(buffer Buffer)\<close>\<close>

definition put :: "Pool \<Rightarrow> Buffer \<Rightarrow> Pool outcome" where
  "put p buffer =
     (if bpool buffer \<noteq> Some (pid p)
        then Panics ''putting buffer to pool where it didn't originate from''
      else let buf = shiftBuf buffer in
        if bits_OnesCount (length buf) > 1
          then Panics ''putting buffer that is not power of two len''
        else if length buf = 0 then Returns p
        else let s = fittingShift (length buf) in
          if s < minShift p \<or> s > maxShift p then Returns p
          else if s - minShift p < length (pools p)
            then (case pool_Put (pools p ! (s - minShift p)) buf of
                    Panics m \<Rightarrow> Panics m
                  | Returns sub \<Rightarrow> Returns (p\<lparr>pools := (pools p)[s - minShift p := sub]\<rparr>))
          else Panics ''index out of range'')"

text \<open>
  \<^verbatim>\<open>func (b Buffer) Free()\<close>: a buffer without a pool is dropped; otherwise it goes back
  to its own pool, whose current state the caller passes as \<open>p\<close>.
\<close>

definition Free :: "Pool \<Rightarrow> Buffer \<Rightarrow> Pool outcome" where
  "Free p b = (if bpool b \<noteq> None then put p b else Returns p)"

subsection \<open>Properties of the pool\<close>

text \<open>A caller that takes buffers of the given sizes, and one that frees a list of buffers.\<close>

fun gets :: "Pool \<Rightarrow> nat list \<Rightarrow> (Buffer list \<times> Pool) outcome" where
  "gets p [] = Returns ([], p)"
| "gets p (n # ns) =
     (case Get p n of
        Panics m \<Rightarrow> Panics m
      | Returns (b, p') \<Rightarrow>
          (case gets p' ns of Panics m \<Rightarrow> Panics m | Returns (bs, p'') \<Rightarrow> Returns (b # bs, p'')))"

fun frees :: "Pool \<Rightarrow> Buffer list \<Rightarrow> Pool outcome" where
  "frees p [] = Returns p"
| "frees p (b # bs) = (case Free p b of Panics m \<Rightarrow> Panics m | Returns p' \<Rightarrow> frees p' bs)"

lemma bits_Len_Suc_0: "bits_Len (Suc 0) = Suc 0"
  by (simp add: bits_Len.simps [of "Suc 0"] bits_Len.simps [of 0])

lemma fittingShift_Suc_0: "fittingShift (Suc 0) = 0"
  by (simp add: fittingShift_def bits_Len_Suc_0 shl1_def)

text \<open>
  Claim C3 says that \<^verbatim>\<open>Get(n)\<close> has a payload of \<open>n\<close> bytes for every \<open>n\<close>.  The code
  takes the branch meant for \<open>n = 0\<close> whenever \<open>fittingShift n = 0\<close>, and that is also the
  case for \<open>n = 1\<close>: \<^verbatim>\<open>Get(1)\<close> is the empty buffer, of payload length 0.
\<close>

theorem Get_one_returns_empty:
  "Get p 1 = Returns (\<lparr>shiftBuf = [], payloadLen = 0, bpool = None\<rparr>, p) \<and>
   Bytes \<lparr>shiftBuf = [], payloadLen = 0, bpool = None\<rparr> = Returns []"
  by (simp add: Get_def fittingShift_Suc_0 Bytes_def)

text \<open>\<open>n = 1\<close> is the only size that goes wrong this way: from 2 on the payload is \<open>n\<close>.\<close>

lemma bits_Len_eq_0 [simp]: "bits_Len n = 0 \<longleftrightarrow> n = 0"
  by (subst bits_Len.simps) simp

lemma bits_Len_ge_2: "2 \<le> n \<Longrightarrow> 2 \<le> bits_Len n"
proof -
  assume "2 \<le> n"
  then have "n \<noteq> 0" "n div 2 \<noteq> 0" by auto
  then show ?thesis
    by (subst bits_Len.simps, subst bits_Len.simps) simp
qed

lemma fittingShift_eq_0: "fittingShift n = 0 \<longleftrightarrow> n \<le> 1"
proof (cases "2 \<le> n")
  case True
  from bits_Len_ge_2 [OF this] True show ?thesis
    by (auto simp: fittingShift_def Let_def)
next
  case False
  then have "n = 0 \<or> n = 1" by auto
  then show ?thesis
    by (auto simp: fittingShift_Suc_0) (simp add: fittingShift_def)
qed

lemma Get_payloadLen:
  "2 \<le> n \<Longrightarrow> Get p n = Returns (b, p') \<Longrightarrow> payloadLen b = n"
  using fittingShift_eq_0 [of n]
  by (auto simp: Get_def Let_def split: if_splits prod.splits)


lemma New_1_1: "New 0 1 1 = Returns \<lparr>pid = 0, minShift = 1, maxShift = 1, pools = [\<lparr>bufs = [], shift = 1\<rparr>]\<rparr>"
  by (simp add: New_def)

text \<open>
  Claim C4 says that a sub-pool never holds more than 10 buffers.  \<^verbatim>\<open>Put\<close> drops a buffer
  only when the sub-pool already holds more than 10, so the eleventh is stored: take 11
  buffers of 2 bytes from the pool \<^verbatim>\<open>New(1, 1)\<close> and free them all, and the sub-pool of
  shift 1 holds 11 buffers.
\<close>

theorem pool_holds_eleven:
  "New 0 1 1 = Returns \<lparr>pid = 0, minShift = 1, maxShift = 1, pools = [\<lparr>bufs = [], shift = 1\<rparr>]\<rparr> \<and>
   gets \<lparr>pid = 0, minShift = 1, maxShift = 1, pools = [\<lparr>bufs = [], shift = 1\<rparr>]\<rparr> (replicate 11 2)
     = Returns (replicate 11 \<lparr>shiftBuf = [CHR 0x00, CHR 0x00], payloadLen = 2, bpool = Some 0\<rparr>,
                \<lparr>pid = 0, minShift = 1, maxShift = 1, pools = [\<lparr>bufs = [], shift = 1\<rparr>]\<rparr>) \<and>
   frees \<lparr>pid = 0, minShift = 1, maxShift = 1, pools = [\<lparr>bufs = [], shift = 1\<rparr>]\<rparr>
         (replicate 11 \<lparr>shiftBuf = [CHR 0x00, CHR 0x00], payloadLen = 2, bpool = Some 0\<rparr>)
     = Returns \<lparr>pid = 0, minShift = 1, maxShift = 1,
                pools = [\<lparr>bufs = replicate 11 [CHR 0x00, CHR 0x00], shift = 1\<rparr>]\<rparr>"
  by code_simp


text \<open>What the code does keep: no sub-pool ever holds more than 11 buffers.\<close>

definition subpools_le :: "nat \<Rightarrow> Pool \<Rightarrow> bool" where
  "subpools_le k p = list_all (\<lambda>sub. length (bufs sub) \<le> k) (pools p)"

lemma list_all_update:
  "list_all P xs \<Longrightarrow> P x \<Longrightarrow> list_all P (xs[i := x])"
  using set_update_subset_insert [of xs i x] by (auto simp: list_all_iff)

lemma pool_Put_le:
  "length (bufs sub) \<le> 11 \<Longrightarrow> pool_Put sub b = Returns sub' \<Longrightarrow> length (bufs sub') \<le> 11"
  by (auto simp: pool_Put_def split: if_splits)

lemma pool_Get_le:
  "length (bufs sub) \<le> k \<Longrightarrow> pool_Get sub = (b, sub') \<Longrightarrow> length (bufs sub') \<le> k"
  by (auto simp: pool_Get_def split: if_splits)

lemma put_le:
  assumes "subpools_le 11 p" and "put p b = Returns p'"
  shows "subpools_le 11 p'"
proof (cases "p' = p")
  case True
  with assms(1) show ?thesis by simp
next
  case False
  let ?i = "fittingShift (length (shiftBuf b)) - minShift p"
  from False assms(2) obtain sub'
    where i: "?i < length (pools p)"
      and sub: "pool_Put (pools p ! ?i) (shiftBuf b) = Returns sub'"
      and p': "p' = p\<lparr>pools := (pools p)[?i := sub']\<rparr>"
    by (auto simp: put_def Let_def split: if_splits outcome.splits)
  from assms(1) i have "length (bufs (pools p ! ?i)) \<le> 11"
    by (simp add: subpools_le_def list_all_length)
  from pool_Put_le [OF this sub] assms(1) show ?thesis
    by (simp add: p' subpools_le_def list_all_update)
qed

lemma Free_le: "subpools_le 11 p \<Longrightarrow> Free p b = Returns p' \<Longrightarrow> subpools_le 11 p'"
  by (auto simp: Free_def dest: put_le split: if_splits)

lemma Get_le:
  assumes "subpools_le k p" and "Get p n = Returns (b, p')"
  shows "subpools_le k p'"
proof (cases "p' = p")
  case True
  with assms(1) show ?thesis by simp
next
  case False
  let ?i = "fittingShift n - minShift p"
  from False assms(2) obtain buf sub'
    where i: "?i < length (pools p)"
      and sub: "pool_Get (pools p ! ?i) = (buf, sub')"
      and p': "p' = p\<lparr>pools := (pools p)[?i := sub']\<rparr>"
    by (auto simp: Get_def Let_def split: if_splits prod.splits)
  from assms(1) i have "length (bufs (pools p ! ?i)) \<le> k"
    by (simp add: subpools_le_def list_all_length)
  from pool_Get_le [OF this sub] assms(1) show ?thesis
    by (simp add: p' subpools_le_def list_all_update)
qed

lemma New_le: "New i a b = Returns p \<Longrightarrow> subpools_le k p"
  by (auto simp: New_def subpools_le_def list_all_iff split: if_splits)

text \<open>
  The pool of \<^verbatim>\<open>WriteStream\<close> is \<^verbatim>\<open>New(19, 19)\<close>, and every buffer is taken from it by
  \<^verbatim>\<open>Get(1 << 19)\<close>.  Such a pool hands out buffers of \<open>2 ^ 19\<close> bytes; shrunk to the
  \<open>n\<close> bytes that were read, a buffer presents its first \<open>n\<close> bytes; and it can be
  freed.  None of these calls panics.
\<close>

lemma bits_Len_double: "0 < n \<Longrightarrow> bits_Len (2 * n) = Suc (bits_Len n)"
  by (subst bits_Len.simps) simp

lemma bits_Len_pow2: "bits_Len (2 ^ k) = Suc k"
proof (induction k)
  case 0
  show ?case by (simp add: bits_Len_Suc_0)
next
  case (Suc k)
  then show ?case by (simp add: bits_Len_double)
qed

lemma fittingShift_pow2: "k < 64 \<Longrightarrow> fittingShift (2 ^ k) = k"
  by (simp add: fittingShift_def bits_Len_pow2 shl1_def)

definition pool19 :: "Pool \<Rightarrow> bool" where
  "pool19 p =
     (minShift p = 19 \<and> maxShift p = 19 \<and>
      (\<exists>sub. pools p = [sub] \<and> shift sub = 19 \<and> list_all (\<lambda>b. length b = 2 ^ 19) (bufs sub)))"

lemma New_pool19: "\<exists>p. New i 19 19 = Returns p \<and> pool19 p"
  by (simp add: New_def pool19_def)

lemma Get_pool19:
  assumes "pool19 p"
  shows "\<exists>b p'. Get p (2 ^ 19) = Returns (b, p') \<and> pool19 p' \<and> bpool b = Some (pid p) \<and>
           pid p' = pid p \<and> length (shiftBuf b) = 2 ^ 19 \<and> payloadLen b = 2 ^ 19"
proof -
  from assms obtain sub where p: "minShift p = 19" "maxShift p = 19" "pools p = [sub]"
    "shift sub = 19" "list_all (\<lambda>b. length b = 2 ^ 19) (bufs sub)"
    by (auto simp: pool19_def)
  have fs: "fittingShift (2 ^ 19) = 19"
    by (rule fittingShift_pow2) simp
  show ?thesis
  proof (cases "bufs sub")
    case Nil
    with p fs show ?thesis
      by (simp add: Get_def pool_Get_def pool19_def shl1_def)
  next
    case (Cons x xs)
    then have ne: "bufs sub \<noteq> []" by simp
    with p(5) have "length (last (bufs sub)) = 2 ^ 19"
      by (simp add: list_all_iff)
    moreover from p(5) have "list_all (\<lambda>b. length b = 2 ^ 19) (butlast (bufs sub))"
      by (auto simp: list_all_iff dest: in_set_butlastD)
    ultimately show ?thesis
      using p fs ne by (simp add: Get_def pool_Get_def pool19_def)
  qed
qed

lemma Shrink_Bytes:
  "n \<le> payloadLen b \<Longrightarrow> payloadLen b \<le> length (shiftBuf b) \<Longrightarrow>
   \<exists>b'. Shrink b n = Returns b' \<and> Bytes b' = Returns (take n (shiftBuf b)) \<and>
        shiftBuf b' = shiftBuf b \<and> bpool b' = bpool b"
  by (simp add: Shrink_def Bytes_def)

lemma bits_OnesCount_pow2: "bits_OnesCount (2 ^ k) = 1"
proof (induction k)
  case 0
  show ?case by (simp add: bits_OnesCount.simps [of "Suc 0"] bits_OnesCount.simps [of 0])
next
  case (Suc k)
  then show ?case by (subst bits_OnesCount.simps) simp
qed

lemma Free_pool19:
  assumes "pool19 p" and "bpool b = Some (pid p)" and "length (shiftBuf b) = 2 ^ 19"
  shows "\<exists>p'. Free p b = Returns p' \<and> pool19 p' \<and> pid p' = pid p"
proof -
  from assms(1) obtain sub where p: "minShift p = 19" "maxShift p = 19" "pools p = [sub]"
    "shift sub = 19" "list_all (\<lambda>b. length b = 2 ^ 19) (bufs sub)"
    by (auto simp: pool19_def)
  have fs: "fittingShift (2 ^ 19) = 19"
    by (rule fittingShift_pow2) simp
  have oc: "bits_OnesCount (2 ^ 19) = 1"
    by (rule bits_OnesCount_pow2)
  show ?thesis
    using p fs oc assms(2,3)
    by (simp add: Free_def put_def pool_Put_def pool19_def shl1_def)
qed

section \<open>Errors\<close>

text \<open>
  Go's \<^verbatim>\<open>error\<close> values, as far as the code looks at them: the sentinels of package
  \<^verbatim>\<open>io\<close> (compared by identity), an error that only carries a message
  (\<^verbatim>\<open>errors.New\<close>, \<^verbatim>\<open>fmt.Errorf\<close>), and an error that implements \<^verbatim>\<open>net.Error\<close>.  A nil
  error is \<open>None\<close>.
\<close>

datatype error =
    io_EOF
  | io_ErrUnexpectedEOF
  | io_ErrShortWrite
  | errorString string
  | netError string

text \<open>The method \<^verbatim>\<open>Error() string\<close>.\<close>

fun Error :: "error \<Rightarrow> string" where
  "Error io_EOF = ''EOF''"
| "Error io_ErrUnexpectedEOF = ''unexpected EOF''"
| "Error io_ErrShortWrite = ''short write''"
| "Error (errorString m) = m"
| "Error (netError m) = m"

section \<open>Package stream: the stream multiplexer\<close>

subsection \<open>Collaborators of the stream layer\<close>

text \<open>\<^verbatim>\<open>SourceEOF uint32 = ^uint32(0)\<close> and \<^verbatim>\<open>SourceErr uint32 = ^uint32(1)\<close>.\<close>

definition SourceEOF :: uint32 where
  "SourceEOF = NOT 0"

definition SourceErr :: uint32 where
  "SourceErr = NOT 1"

text \<open>
  The \<^verbatim>\<open>io.Reader\<close> handed to \<^verbatim>\<open>WriteStream\<close>: it yields the bytes \<open>rdata\<close> and then
  fails with \<open>rfinal\<close> (\<^term>\<open>io_EOF\<close> for a source that simply ends).
  \<^verbatim>\<open>strings.NewReader(s)\<close> is such a reader over the bytes of \<open>s\<close>.
\<close>

record reader =
  rdata :: "byte list"
  rfinal :: error

definition strings_NewReader :: "string \<Rightarrow> reader" where
  "strings_NewReader s = \<lparr>rdata = s, rfinal = io_EOF\<rparr>"

text \<open>
  \<^verbatim>\<open>io.ReadFull(r, buf)\<close> with \<open>n = len(buf)\<close>: exactly \<open>n\<close> bytes and a nil error, or
  fewer bytes and the reader's error, where \<^verbatim>\<open>io.EOF\<close> after at least one byte becomes
  \<^verbatim>\<open>io.ErrUnexpectedEOF\<close>.  The result is the bytes read, the error and the reader
  after the call.
\<close>

definition io_ReadFull :: "reader \<Rightarrow> nat \<Rightarrow> byte list \<times> error option \<times> reader" where
  "io_ReadFull r n =
     (if n \<le> length (rdata r) then (take n (rdata r), None, r\<lparr>rdata := drop n (rdata r)\<rparr>)
      else (rdata r,
            Some (if rdata r \<noteq> [] \<and> rfinal r = io_EOF then io_ErrUnexpectedEOF else rfinal r),
            r\<lparr>rdata := []\<rparr>))"

text \<open>
  Modelled from the spec: the frame connection (package \<^verbatim>\<open>frameconn2\<close>, not part of the
  sources at hand), which "reads/writes \<open>(type: u32, payload: bytes)\<close> frames".
  \<open>outgoing\<close> collects the frames written so far; the write at position \<open>k\<close> fails
  with \<open>e\<close> when \<open>wfail k = Some e\<close>.  \<open>incoming\<close> are the frames the peer has sent;
  once they are used up \<^verbatim>\<open>ReadFrame\<close> fails with \<open>rfail\<close>.
\<close>

record frame =
  ftype :: uint32
  fpayload :: "byte list"

record Conn =
  outgoing :: "frame list"
  wfail :: "nat \<Rightarrow> error option"
  incoming :: "frame list"
  rfail :: error

definition WriteFrame :: "Conn \<Rightarrow> byte list \<Rightarrow> uint32 \<Rightarrow> Conn \<times> error option" where
  "WriteFrame c b t =
     (case wfail c (length (outgoing c)) of
        Some e \<Rightarrow> (c, Some e)
      | None \<Rightarrow> (c\<lparr>outgoing := outgoing c @ [\<lparr>ftype = t, fpayload = b\<rparr>]\<rparr>, None))"

definition ReadFrame :: "Conn \<Rightarrow> frame \<times> error option \<times> Conn" where
  "ReadFrame c =
     (case incoming c of
        [] \<Rightarrow> (\<lparr>ftype = 0, fpayload = []\<rparr>, Some (rfail c), c)
      | fr # frs \<Rightarrow> (fr, None, c\<lparr>incoming := frs\<rparr>))"

text \<open>\<^verbatim>\<open>bytes.Buffer.Write\<close>, the well-behaved \<^verbatim>\<open>io.Writer\<close>: it appends and never fails.\<close>

definition bytes_Buffer_Write :: "byte list \<Rightarrow> byte list \<Rightarrow> byte list \<times> nat \<times> error option" where
  "bytes_Buffer_Write w p = (w @ p, length p, None)"

text \<open>The verb \<^verbatim>\<open>%v\<close> of package \<^verbatim>\<open>fmt\<close> on an unsigned integer: its decimal digits.\<close>

fun fmt_uint :: "nat \<Rightarrow> string" where
  "fmt_uint n =
     (if n < 10 then [char_of (48 + n)] else fmt_uint (n div 10) @ [char_of (48 + n mod 10)])"

declare fmt_uint.simps [simp del]

subsection \<open>WriteStream\<close>

text \<open>
  The producer goroutine of \<^verbatim>\<open>WriteStream\<close> takes a buffer of \<^verbatim>\<open>1 << 19\<close> bytes from the
  pool, fills it with \<^verbatim>\<open>io.ReadFull\<close> and shrinks it to the bytes read; what the consumer
  sees as \<^verbatim>\<open>buf.Bytes()\<close> are those bytes (\<open>Get_pool19\<close>, \<open>Shrink_Bytes\<close> and
  \<open>Free_pool19\<close> above), and a read of the model holds them in place of the buffer.  The channel \<^verbatim>\<open>reads\<close> is the list of the
  values sent on it, in order; the goroutine closes it after the first read with an
  error.
\<close>

definition bufSize :: nat where
  "bufSize = 2 ^ 19"

record read =
  read_buf :: "byte list"
  read_err :: "error option"

function producer :: "reader \<Rightarrow> read list" where
  "producer stream =
     (case io_ReadFull stream bufSize of (bufferBytes, e, stream') \<Rightarrow>
        let e = (if e = Some io_ErrUnexpectedEOF then Some io_EOF else e) in
        \<lparr>read_buf = bufferBytes, read_err = e\<rparr> # (if e \<noteq> None then [] else producer stream'))"
  by pat_completeness auto
termination
  by (relation "measure (\<lambda>r. length (rdata r))")
     (auto simp: io_ReadFull_def bufSize_def split: if_splits)

declare producer.simps [simp del]

lemma bufSize_pos: "0 < bufSize"
  by (simp add: bufSize_def)

lemma producer_full:
  "bufSize \<le> length (rdata s) \<Longrightarrow>
   producer s = \<lparr>read_buf = take bufSize (rdata s), read_err = None\<rparr>
                  # producer (s\<lparr>rdata := drop bufSize (rdata s)\<rparr>)"
  by (subst producer.simps) (simp add: io_ReadFull_def)

lemma producer_short:
  "length (rdata s) < bufSize \<Longrightarrow>
   producer s =
     [\<lparr>read_buf = rdata s,
       read_err = Some (if rfinal s = io_EOF \<or> rfinal s = io_ErrUnexpectedEOF then io_EOF
                        else rfinal s)\<rparr>]"
  by (subst producer.simps) (auto simp: io_ReadFull_def)

text \<open>A source that ends: its last read reports \<^verbatim>\<open>io.EOF\<close> or \<^verbatim>\<open>io.ErrUnexpectedEOF\<close>.\<close>

definition cleanEnd :: "reader \<Rightarrow> bool" where
  "cleanEnd s = (rfinal s = io_EOF \<or> rfinal s = io_ErrUnexpectedEOF)"

lemma cleanEnd_NewReader: "cleanEnd (strings_NewReader m)"
  by (simp add: cleanEnd_def strings_NewReader_def)

lemma producer_clean_errs:
  "cleanEnd s \<Longrightarrow> r \<in> set (producer s) \<Longrightarrow> read_err r = None \<or> read_err r = Some io_EOF"
proof (induction "length (rdata s)" arbitrary: s rule: less_induct)
  case less
  show ?case
  proof (cases "bufSize \<le> length (rdata s)")
    case True
    let ?s' = "s\<lparr>rdata := drop bufSize (rdata s)\<rparr>"
    have shorter: "length (rdata ?s') < length (rdata s)"
      using True bufSize_pos by simp
    have "cleanEnd ?s'"
      using less.prems(1) by (simp add: cleanEnd_def)
    from less.hyps [OF shorter this] less.prems(2) show ?thesis
      by (auto simp: producer_full [OF True])
  next
    case False
    then have "length (rdata s) < bufSize" by simp
    from producer_short [OF this] less.prems show ?thesis
      by (auto simp: cleanEnd_def)
  qed
qed

text \<open>
  The measure of the recursion of \<^verbatim>\<open>WriteStream\<close>: a read with an error costs the
  reads of its trailer, whose source is a \<^verbatim>\<open>strings.Reader\<close> and so ends cleanly.
\<close>

definition trailerCost :: "read \<Rightarrow> nat" where
  "trailerCost r =
     (if read_err r \<noteq> None \<and> read_err r \<noteq> Some io_EOF
      then length (producer (strings_NewReader (Error (the (read_err r))))) + 3 else 1)"

lemma trailerCost_clean:
  assumes "cleanEnd s"
  shows "sum_list (map trailerCost (producer s)) = length (producer s)"
proof -
  from assms have "\<forall>r \<in> set (producer s). trailerCost r = 1"
    by (auto simp: trailerCost_def dest: producer_clean_errs)
  then have "map trailerCost (producer s) = replicate (length (producer s)) 1"
    by (simp add: map_replicate_const [symmetric] cong: map_cong)
  then show ?thesis by (simp add: sum_list_replicate)
qed

text \<open>
  \<^verbatim>\<open>func WriteStream(ctx, c, stream, stype) error\<close> and its loop
  \<^verbatim>\<open>for read := range reads\<close> (\<open>consumer\<close>).  The connection is updated in place by the
  source; the model returns it beside the error.
\<close>

function WriteStream :: "Conn \<Rightarrow> reader \<Rightarrow> uint32 \<Rightarrow> (Conn \<times> error option) outcome"
  and consumer :: "Conn \<Rightarrow> read list \<Rightarrow> uint32 \<Rightarrow> (Conn \<times> error option) outcome"
where
  "WriteStream c stream stype =
     (if stype = 0 then Panics [] else consumer c (producer stream) stype)"
| "consumer c [] stype = Returns (c, None)"
| "consumer c (r # reads) stype =
     (if read_err r \<noteq> None \<and> read_err r \<noteq> Some io_EOF then
        (case WriteStream c (strings_NewReader (Error (the (read_err r)))) SourceErr of
           Panics m \<Rightarrow> Panics m
         | Returns (c', e) \<Rightarrow> if e \<noteq> None then Returns (c', e) else Returns (c', None))
      else
        (case WriteFrame c (read_buf r) stype of (c', writeErr) \<Rightarrow>
           if writeErr \<noteq> None then Returns (c', writeErr)
           else if read_err r = Some io_EOF then
             (case WriteFrame c' [] SourceEOF of (c'', e) \<Rightarrow>
                if e \<noteq> None then Returns (c'', e) else Returns (c'', None))
           else consumer c' reads stype))"
  by pat_completeness auto
termination
  apply (relation "measure (\<lambda>x. case x of
            Inl (c, stream, stype) \<Rightarrow> sum_list (map trailerCost (producer stream)) + 1
          | Inr (c, reads, stype) \<Rightarrow> sum_list (map trailerCost reads))")
     apply simp
    apply simp
   apply (simp add: trailerCost_def trailerCost_clean [OF cleanEnd_NewReader])
  apply (simp add: trailerCost_def)
  done

declare WriteStream.simps [simp del]

subsection \<open>ReadStream\<close>

text \<open>
  The reader goroutine of \<^verbatim>\<open>ReadStream\<close>: the list of the values it sends on its channel.
  It stops after a read error and after a frame of type \<^verbatim>\<open>SourceEOF\<close> or \<^verbatim>\<open>SourceErr\<close>.
\<close>

record fread =
  read_f :: frame
  read_ferr :: "error option"

function frameReads :: "Conn \<Rightarrow> fread list" where
  "frameReads c =
     (case ReadFrame c of (fr, e, c') \<Rightarrow>
        \<lparr>read_f = fr, read_ferr = e\<rparr>
          # (if e \<noteq> None \<or> ftype fr = SourceEOF \<or> ftype fr = SourceErr then []
             else frameReads c'))"
  by pat_completeness auto
termination
  by (relation "measure (\<lambda>c. length (incoming c))")
     (auto simp: ReadFrame_def split: list.splits)

declare frameReads.simps [simp del]

text \<open>
  The loop \<^verbatim>\<open>for read := range reads\<close> of \<^verbatim>\<open>ReadStream\<close>, with the \<^verbatim>\<open>io.Writer\<close> given by
  its method \<open>wr\<close> (the writer's state, the bytes; the new state, the count and the
  error).  \<open>fr\<close> is the variable \<^verbatim>\<open>f\<close>.  \<open>Inl e\<close> is a \<^verbatim>\<open>return e\<close> inside the loop,
  \<open>Inr fr\<close> the end of the loop (by \<^verbatim>\<open>break\<close> or on the closed channel) with
  \<^verbatim>\<open>f = fr\<close>.
\<close>

fun recvLoop ::
  "('w \<Rightarrow> byte list \<Rightarrow> 'w \<times> nat \<times> error option) \<Rightarrow> 'w \<Rightarrow> frame \<Rightarrow> fread list \<Rightarrow> uint32
     \<Rightarrow> 'w \<times> (error + frame)" where
  "recvLoop wr w fr [] stype = (w, Inr fr)"
| "recvLoop wr w fr (r # reads) stype =
     (let fr = read_f r in
      if read_ferr r \<noteq> None then (w, Inl (the (read_ferr r)))
      else if ftype fr \<noteq> stype then (w, Inr fr)
      else (case wr w (fpayload fr) of (w', n, e) \<Rightarrow>
        if e \<noteq> None then (w', Inl (the e))
        else if n \<noteq> length (fpayload fr) then (w', Inl io_ErrShortWrite)
        else recvLoop wr w' fr reads stype))"

text \<open>
  \<^verbatim>\<open>func ReadStream(ctx, c, receiver, stype) (err error)\<close>.  \<open>quote\<close> is the verb \<^verbatim>\<open>%q\<close>
  of package \<^verbatim>\<open>fmt\<close> (\<^verbatim>\<open>strconv.Quote\<close>), a parameter of the model.  The result is the
  state of the receiver and the error.
\<close>

definition ReadStream ::
  "(string \<Rightarrow> string) \<Rightarrow> ('w \<Rightarrow> byte list \<Rightarrow> 'w \<times> nat \<times> error option) \<Rightarrow> Conn \<Rightarrow> 'w \<Rightarrow> uint32
     \<Rightarrow> 'w \<times> error option" where
  "ReadStream quote wr c receiver stype =
     (case recvLoop wr receiver \<lparr>ftype = 0, fpayload = []\<rparr> (frameReads c) stype of
        (w, Inl e) \<Rightarrow> (w, Some e)
      | (w, Inr fr) \<Rightarrow>
          if ftype fr = SourceEOF then (w, None)
          else if ftype fr = SourceErr
            then (w, Some (errorString (''stream error: '' @ quote (fpayload fr))))
          else (w, Some (errorString
                  (''received unexpected frame type: '' @ fmt_uint (unat (ftype fr))))))"

subsection \<open>Properties of the stream layer\<close>

text \<open>A connection on which no write fails.\<close>

definition reliable :: "Conn \<Rightarrow> bool" where
  "reliable c = (\<forall>k. wfail c k = None)"

text \<open>A frame, and a connection after the frames \<open>frs\<close> have been written to it.\<close>

definition mkFrame :: "uint32 \<Rightarrow> byte list \<Rightarrow> frame" where
  "mkFrame t b = \<lparr>ftype = t, fpayload = b\<rparr>"

definition sent :: "Conn \<Rightarrow> frame list \<Rightarrow> Conn" where
  "sent c frs = c\<lparr>outgoing := outgoing c @ frs\<rparr>"

lemma reliable_sent [simp]: "reliable (sent c frs) = reliable c"
  by (simp add: reliable_def sent_def)

lemma sent_sent [simp]: "sent (sent c xs) ys = sent c (xs @ ys)"
  by (simp add: sent_def)

lemma WriteFrame_reliable:
  "reliable c \<Longrightarrow> WriteFrame c b t = (sent c [mkFrame t b], None)"
  by (simp add: WriteFrame_def reliable_def sent_def mkFrame_def)

lemma consumer_clean:
  "reliable c \<Longrightarrow> cleanEnd s \<Longrightarrow>
   consumer c (producer s) stype =
     Returns (sent c (map (\<lambda>r. mkFrame stype (read_buf r)) (producer s) @ [mkFrame SourceEOF []]),
              None)"
proof (induction "length (rdata s)" arbitrary: s c rule: less_induct)
  case less
  show ?case
  proof (cases "bufSize \<le> length (rdata s)")
    case True
    let ?s' = "s\<lparr>rdata := drop bufSize (rdata s)\<rparr>"
    have shorter: "length (rdata ?s') < length (rdata s)"
      using True bufSize_pos by simp
    have clean': "cleanEnd ?s'"
      using less.prems(2) by (simp add: cleanEnd_def)
    have rel': "reliable (sent c [mkFrame stype (take bufSize (rdata s))])"
      using less.prems(1) by simp
    show ?thesis
      using less.hyps [OF shorter rel' clean'] less.prems(1)
      by (simp add: producer_full [OF True] WriteFrame_reliable)
  next
    case False
    then have short: "length (rdata s) < bufSize" by simp
    show ?thesis
      using less.prems
      by (simp add: producer_short [OF short] WriteFrame_reliable cleanEnd_def)
  qed
qed

lemma concat_producer: "concat (map read_buf (producer s)) = rdata s"
proof (induction "length (rdata s)" arbitrary: s rule: less_induct)
  case less
  show ?case
  proof (cases "bufSize \<le> length (rdata s)")
    case True
    let ?s' = "s\<lparr>rdata := drop bufSize (rdata s)\<rparr>"
    have shorter: "length (rdata ?s') < length (rdata s)"
      using True bufSize_pos by simp
    show ?thesis
      using less.hyps [OF shorter] by (simp add: producer_full [OF True])
  next
    case False
    then have short: "length (rdata s) < bufSize" by simp
    show ?thesis by (simp add: producer_short [OF short])
  qed
qed

lemma frameReads_Cons:
  "incoming c = fr # frs \<Longrightarrow>
   frameReads c =
     \<lparr>read_f = fr, read_ferr = None\<rparr>
       # (if ftype fr = SourceEOF \<or> ftype fr = SourceErr then []
          else frameReads (c\<lparr>incoming := frs\<rparr>))"
  by (subst frameReads.simps) (simp add: ReadFrame_def)

lemma frameReads_Nil:
  "incoming c = [] \<Longrightarrow>
   frameReads c = [\<lparr>read_f = \<lparr>ftype = 0, fpayload = []\<rparr>, read_ferr = Some (rfail c)\<rparr>]"
  by (subst frameReads.simps) (simp add: ReadFrame_def)

lemma recvLoop_stream:
  "stype \<noteq> SourceEOF \<Longrightarrow> stype \<noteq> SourceErr \<Longrightarrow>
   ftype t = SourceEOF \<or> ftype t = SourceErr \<Longrightarrow>
   incoming c = map (mkFrame stype) bs @ t # rest \<Longrightarrow>
   recvLoop bytes_Buffer_Write w fr0 (frameReads c) stype = (w @ concat bs, Inr t)"
proof (induction bs arbitrary: c w fr0)
  case Nil
  then show ?case
    by (auto simp: frameReads_Cons)
next
  case (Cons b bs)
  have inc: "incoming c = mkFrame stype b # (map (mkFrame stype) bs @ t # rest)"
    using Cons.prems(4) by simp
  have inc': "incoming (c\<lparr>incoming := map (mkFrame stype) bs @ t # rest\<rparr>)
                = map (mkFrame stype) bs @ t # rest"
    by simp
  show ?case
    using Cons.IH [OF Cons.prems(1,2,3) inc'] Cons.prems(1,2)
    by (simp add: frameReads_Cons [OF inc] mkFrame_def bytes_Buffer_Write_def)
qed


lemma WriteStream_clean:
  "stype \<noteq> 0 \<Longrightarrow> reliable c \<Longrightarrow> cleanEnd s \<Longrightarrow>
   WriteStream c s stype =
     Returns (sent c (map (mkFrame stype) (map read_buf (producer s)) @ [mkFrame SourceEOF []]),
              None)"
  by (simp add: WriteStream.simps consumer_clean comp_def)

lemma written_sent: "drop (length (outgoing c)) (outgoing (sent c frs)) = frs"
  by (simp add: sent_def)

lemma ReadStream_terminated:
  assumes "stype \<noteq> SourceEOF" "stype \<noteq> SourceErr"
    and "ftype t = SourceEOF \<or> ftype t = SourceErr"
    and "incoming c = map (mkFrame stype) bs @ t # rest"
  shows "ReadStream quote bytes_Buffer_Write c w stype =
           (w @ concat bs,
            if ftype t = SourceEOF then None
            else Some (errorString (''stream error: '' @ quote (fpayload t))))"
  using assms(3) by (auto simp: ReadStream_def recvLoop_stream [OF assms])

lemma SourceEOF_neq_SourceErr: "SourceEOF \<noteq> SourceErr"
  by (simp add: SourceEOF_def SourceErr_def)

lemma SourceEOF_neq_0: "SourceEOF \<noteq> 0"
  by (simp add: SourceEOF_def)

lemma SourceErr_neq_0: "SourceErr \<noteq> 0"
  by (simp add: SourceErr_def)

text \<open>
  Claim C2.  Let \<open>stype\<close> be a user stream type (not 0, not \<^verbatim>\<open>SourceEOF\<close>, not
  \<^verbatim>\<open>SourceErr\<close>), the connection one on which no write fails, and \<open>src\<close> a source that
  yields the bytes \<open>rdata src\<close> and then \<^verbatim>\<open>io.EOF\<close>.  Then \<^verbatim>\<open>WriteStream\<close> returns a nil
  error, and \<^verbatim>\<open>ReadStream\<close> with the same \<open>stype\<close>, run by a peer that receives the
  frames this call has written, appends exactly \<open>rdata src\<close> to a well-behaved receiver
  and returns a nil error.  There is no bound on the length of the byte sequence.
\<close>

theorem ReadStream_WriteStream_roundtrip:
  assumes "stype \<noteq> 0" "stype \<noteq> SourceEOF" "stype \<noteq> SourceErr"
    and "reliable c" and "rfinal src = io_EOF"
  shows "\<exists>c'. WriteStream c src stype = Returns (c', None) \<and>
           (\<forall>peer w. incoming peer = drop (length (outgoing c)) (outgoing c') \<longrightarrow>
              ReadStream quote bytes_Buffer_Write peer w stype = (w @ rdata src, None))"
proof -
  let ?bs = "map read_buf (producer src)"
  let ?c' = "sent c (map (mkFrame stype) ?bs @ [mkFrame SourceEOF []])"
  have clean: "cleanEnd src"
    using assms(5) by (simp add: cleanEnd_def)
  have w: "WriteStream c src stype = Returns (?c', None)"
    by (rule WriteStream_clean [OF assms(1,4) clean])
  have r: "ReadStream quote bytes_Buffer_Write peer w stype = (w @ rdata src, None)"
    if "incoming peer = drop (length (outgoing c)) (outgoing ?c')" for peer w
  proof -
    from that have inc: "incoming peer = map (mkFrame stype) ?bs @ mkFrame SourceEOF [] # []"
      by (simp only: written_sent)
    have t: "ftype (mkFrame SourceEOF []) = SourceEOF \<or> ftype (mkFrame SourceEOF []) = SourceErr"
      by (simp add: mkFrame_def)
    show ?thesis
      using ReadStream_terminated [OF assms(2,3) t inc, of quote w]
      by (simp add: mkFrame_def concat_producer)
  qed
  from w r show ?thesis by blast
qed

text \<open>A fresh connection without write failures, and the peer that receives \<open>frs\<close>.\<close>

definition conn0 :: Conn where
  "conn0 = \<lparr>outgoing = [], wfail = (\<lambda>k. None), incoming = [], rfail = io_EOF\<rparr>"

definition peerOf :: "frame list \<Rightarrow> Conn" where
  "peerOf frs = \<lparr>outgoing = [], wfail = (\<lambda>k. None), incoming = frs, rfail = io_EOF\<rparr>"

lemma reliable_conn0: "reliable conn0"
  by (simp add: reliable_def conn0_def)

theorem ReadStream_WriteStream_roundtrip_witness:
  "WriteStream conn0 \<lparr>rdata = ''abc'', rfinal = io_EOF\<rparr> 7
     = Returns (conn0\<lparr>outgoing := [mkFrame 7 ''abc'', mkFrame SourceEOF []]\<rparr>, None) \<and>
   ReadStream id bytes_Buffer_Write (peerOf [mkFrame 7 ''abc'', mkFrame SourceEOF []]) [] 7
     = (''abc'', None)"
proof -
  have s: "(7::uint32) \<noteq> 0" "(7::uint32) \<noteq> SourceEOF" "(7::uint32) \<noteq> SourceErr"
    by (simp_all add: SourceEOF_def SourceErr_def)
  have short: "length (rdata \<lparr>rdata = ''abc'', rfinal = io_EOF\<rparr>) < bufSize"
    by (simp add: bufSize_def)
  have w: "WriteStream conn0 \<lparr>rdata = ''abc'', rfinal = io_EOF\<rparr> 7
     = Returns (conn0\<lparr>outgoing := [mkFrame 7 ''abc'', mkFrame SourceEOF []]\<rparr>, None)"
    by (simp add: WriteStream.simps producer_short [OF short] WriteFrame_def conn0_def mkFrame_def)
  from ReadStream_WriteStream_roundtrip [OF s reliable_conn0, of "\<lparr>rdata = ''abc'', rfinal = io_EOF\<rparr>" id]
  obtain c' where c': "WriteStream conn0 \<lparr>rdata = ''abc'', rfinal = io_EOF\<rparr> 7 = Returns (c', None)"
    and rd: "\<And>peer w. incoming peer = drop (length (outgoing conn0)) (outgoing c') \<Longrightarrow>
              ReadStream id bytes_Buffer_Write peer w 7 = (w @ ''abc'', None)"
    by auto
  from c' w have "c' = conn0\<lparr>outgoing := [mkFrame 7 ''abc'', mkFrame SourceEOF []]\<rparr>"
    by simp
  then have "incoming (peerOf [mkFrame 7 ''abc'', mkFrame SourceEOF []])
               = drop (length (outgoing conn0)) (outgoing c')"
    by (simp add: peerOf_def conn0_def)
  from rd [OF this, of "[]"] w show ?thesis by simp
qed

text \<open>Neither the loop of \<^verbatim>\<open>WriteStream\<close> nor its recursive call for the trailer panics.\<close>

lemma WriteStream_consumer_returns:
  "(stype \<noteq> 0 \<longrightarrow> (\<exists>res. WriteStream c stream stype = Returns res))"
  "\<exists>res. consumer c' rs stype' = Returns res"
proof (induction c stream stype and c' rs stype' rule: WriteStream_consumer.induct)
  case (1 c stream stype)
  then show ?case by (simp add: WriteStream.simps)
next
  case (2 c stype)
  show ?case by simp
next
  case (3 c r reads stype)
  show ?case
  proof (cases "read_err r \<noteq> None \<and> read_err r \<noteq> Some io_EOF")
    case True
    from "3.IH"(1) [OF True] SourceErr_neq_0
    obtain res where "WriteStream c (strings_NewReader (Error (the (read_err r)))) SourceErr = Returns res"
      by blast
    with True show ?thesis
      by (cases res) auto
  next
    case False
    obtain c1 e1 where wf: "WriteFrame c (read_buf r) stype = (c1, e1)"
      by (cases "WriteFrame c (read_buf r) stype")
    obtain c2 e2 where wf2: "WriteFrame c1 [] SourceEOF = (c2, e2)"
      by (cases "WriteFrame c1 [] SourceEOF")
    show ?thesis
    proof (cases "e1 = None \<and> read_err r \<noteq> Some io_EOF")
      case True
      with "3.IH"(2) [OF False wf [symmetric]] False wf show ?thesis
        by auto
    next
      case False
      with \<open>\<not> (read_err r \<noteq> None \<and> read_err r \<noteq> Some io_EOF)\<close> wf wf2 show ?thesis
        by auto
    qed
  qed
qed

text \<open>
  Claim C9.  The guard of \<^verbatim>\<open>WriteStream\<close> panics for \<open>stype = 0\<close> and for nothing else: with
  any other \<open>stype\<close> the call returns, and so it does for the reserved types \<^verbatim>\<open>SourceEOF\<close>
  and \<^verbatim>\<open>SourceErr\<close>.
\<close>

theorem WriteStream_guard:
  "WriteStream c stream 0 = Panics [] \<and>
   (stype \<noteq> 0 \<longrightarrow> (\<exists>res. WriteStream c stream stype = Returns res)) \<and>
   (\<exists>res. WriteStream c stream SourceEOF = Returns res) \<and>
   (\<exists>res. WriteStream c stream SourceErr = Returns res)"
  using WriteStream_consumer_returns(1) [of stype c stream]
    WriteStream_consumer_returns(1) [of SourceEOF c stream]
    WriteStream_consumer_returns(1) [of SourceErr c stream]
    SourceEOF_neq_0 SourceErr_neq_0
  by (simp add: WriteStream.simps)

theorem WriteStream_guard_witness:
  "WriteStream conn0 (strings_NewReader ''abc'') 0 = Panics [] \<and>
   (7::uint32) \<noteq> 0 \<and>
   WriteStream conn0 (strings_NewReader ''abc'') 7
     = Returns (conn0\<lparr>outgoing := [mkFrame 7 ''abc'', mkFrame SourceEOF []]\<rparr>, None) \<and>
   WriteStream conn0 (strings_NewReader ''abc'') SourceEOF
     = Returns (conn0\<lparr>outgoing := [mkFrame SourceEOF ''abc'', mkFrame SourceEOF []]\<rparr>, None) \<and>
   WriteStream conn0 (strings_NewReader ''abc'') SourceErr
     = Returns (conn0\<lparr>outgoing := [mkFrame SourceErr ''abc'', mkFrame SourceEOF []]\<rparr>, None)"
proof -
  have short: "length (rdata (strings_NewReader ''abc'')) < bufSize"
    by (simp add: bufSize_def strings_NewReader_def)
  have p: "producer (strings_NewReader ''abc'') = [\<lparr>read_buf = ''abc'', read_err = Some io_EOF\<rparr>]"
    using producer_short [OF short] by (simp add: strings_NewReader_def)
  have w: "t \<noteq> 0 \<Longrightarrow> WriteStream conn0 (strings_NewReader ''abc'') t
     = Returns (conn0\<lparr>outgoing := [mkFrame t ''abc'', mkFrame SourceEOF []]\<rparr>, None)" for t
    by (simp add: WriteStream.simps p WriteFrame_def conn0_def mkFrame_def)
  show ?thesis
    using WriteStream_guard [of conn0 "strings_NewReader ''abc''" 7]
      w [of 7] w [OF SourceEOF_neq_0] w [OF SourceErr_neq_0]
    by simp
qed


lemma producer_empty:
  "producer \<lparr>rdata = [], rfinal = io_EOF\<rparr> = [\<lparr>read_buf = [], read_err = Some io_EOF\<rparr>]"
proof -
  have "length (rdata \<lparr>rdata = [], rfinal = io_EOF\<rparr>) < bufSize"
    by (simp add: bufSize_pos)
  from producer_short [OF this] show ?thesis by simp
qed

text \<open>
  Claim C5, amended.  On a source that is empty, with a user stream type and a connection
  on which no write fails, \<^verbatim>\<open>WriteStream\<close> writes two frames, a data frame of type
  \<open>stype\<close> without payload and then a frame of type \<^verbatim>\<open>SourceEOF\<close> without payload, and
  returns a nil error; \<^verbatim>\<open>ReadStream\<close> on these two frames leaves a well-behaved receiver
  as it was and returns a nil error.
\<close>

theorem WriteStream_empty_source:
  assumes "stype \<noteq> 0" "stype \<noteq> SourceEOF" "stype \<noteq> SourceErr" and "reliable c"
  shows "WriteStream c \<lparr>rdata = [], rfinal = io_EOF\<rparr> stype
           = Returns (sent c [mkFrame stype [], mkFrame SourceEOF []], None) \<and>
         (incoming peer = [mkFrame stype [], mkFrame SourceEOF []] \<longrightarrow>
            ReadStream quote bytes_Buffer_Write peer w stype = (w, None))"
proof -
  have clean: "cleanEnd \<lparr>rdata = [], rfinal = io_EOF\<rparr>"
    by (simp add: cleanEnd_def)
  have w: "WriteStream c \<lparr>rdata = [], rfinal = io_EOF\<rparr> stype
           = Returns (sent c [mkFrame stype [], mkFrame SourceEOF []], None)"
    using WriteStream_clean [OF assms(1,4) clean] by (simp add: producer_empty)
  have r: "ReadStream quote bytes_Buffer_Write peer w stype = (w, None)"
    if "incoming peer = [mkFrame stype [], mkFrame SourceEOF []]"
  proof -
    from that have inc: "incoming peer = map (mkFrame stype) [[]] @ mkFrame SourceEOF [] # []"
      by simp
    have t: "ftype (mkFrame SourceEOF []) = SourceEOF \<or> ftype (mkFrame SourceEOF []) = SourceErr"
      by (simp add: mkFrame_def)
    show ?thesis
      using ReadStream_terminated [OF assms(2,3) t inc, of quote w]
      by (simp add: mkFrame_def)
  qed
  from w r show ?thesis by blast
qed

theorem WriteStream_empty_source_witness:
  "WriteStream conn0 \<lparr>rdata = [], rfinal = io_EOF\<rparr> 7
     = Returns (sent conn0 [mkFrame 7 [], mkFrame SourceEOF []], None) \<and>
   ReadStream id bytes_Buffer_Write (peerOf [mkFrame 7 [], mkFrame SourceEOF []]) [] 7
     = ([], None)"
proof -
  have s: "(7::uint32) \<noteq> 0" "(7::uint32) \<noteq> SourceEOF" "(7::uint32) \<noteq> SourceErr"
    by (simp_all add: SourceEOF_def SourceErr_def)
  have "incoming (peerOf [mkFrame 7 [], mkFrame SourceEOF []]) = [mkFrame 7 [], mkFrame SourceEOF []]"
    by (simp add: peerOf_def)
  with WriteStream_empty_source [OF s reliable_conn0,
      of "peerOf [mkFrame 7 [], mkFrame SourceEOF []]" id "[]"]
  show ?thesis by simp
qed

text \<open>
  Claim C5 as stated fails: with \<open>stype = 7\<close> the empty source puts two frames on the
  connection, the first of them a data frame of type 7.
\<close>

theorem WriteStream_empty_source_two_frames:
  "WriteStream conn0 \<lparr>rdata = [], rfinal = io_EOF\<rparr> 7
     = Returns (conn0\<lparr>outgoing := [\<lparr>ftype = 7, fpayload = []\<rparr>,
                                     \<lparr>ftype = SourceEOF, fpayload = []\<rparr>]\<rparr>, None) \<and>
   length (outgoing (conn0\<lparr>outgoing := [\<lparr>ftype = 7, fpayload = []\<rparr>,
                                         \<lparr>ftype = SourceEOF, fpayload = []\<rparr>]\<rparr>)) = 2"
  by (simp add: WriteStream.simps producer_empty WriteFrame_def conn0_def)


text \<open>
  The frames of the trailer for a source error with message \<open>msg\<close>: what the recursive
  call \<^verbatim>\<open>WriteStream(ctx, c, strings.NewReader(msg), SourceErr)\<close> writes.
\<close>

definition errTrailer :: "string \<Rightarrow> frame list" where
  "errTrailer msg =
     map (mkFrame SourceErr) (map read_buf (producer (strings_NewReader msg)))
       @ [mkFrame SourceEOF []]"

lemma producer_nonempty: "producer s \<noteq> []"
  by (subst producer.simps) (simp split: prod.splits)

lemma consumer_failing:
  "reliable c \<Longrightarrow> \<not> cleanEnd s \<Longrightarrow>
   consumer c (producer s) stype =
     Returns (sent c (map (mkFrame stype) (map read_buf (butlast (producer s)))
                       @ errTrailer (Error (rfinal s))), None)"
proof (induction "length (rdata s)" arbitrary: s c rule: less_induct)
  case less
  show ?case
  proof (cases "bufSize \<le> length (rdata s)")
    case True
    let ?s' = "s\<lparr>rdata := drop bufSize (rdata s)\<rparr>"
    have shorter: "length (rdata ?s') < length (rdata s)"
      using True bufSize_pos by simp
    have unclean': "\<not> cleanEnd ?s'"
      using less.prems(2) by (simp add: cleanEnd_def)
    have rel': "reliable (sent c [mkFrame stype (take bufSize (rdata s))])"
      using less.prems(1) by simp
    show ?thesis
      using less.hyps [OF shorter rel' unclean'] less.prems(1)
      by (simp add: producer_full [OF True] WriteFrame_reliable producer_nonempty)
  next
    case False
    then have short: "length (rdata s) < bufSize" by simp
    have "WriteStream c (strings_NewReader (Error (rfinal s))) SourceErr
            = Returns (sent c (errTrailer (Error (rfinal s))), None)"
      using WriteStream_clean [OF SourceErr_neq_0 less.prems(1) cleanEnd_NewReader]
      by (simp add: errTrailer_def)
    then show ?thesis
      using less.prems(2)
      by (simp add: producer_short [OF short] cleanEnd_def)
  qed
qed

lemma concat_full_reads:
  "concat (map read_buf (butlast (producer s)))
     = take (length (rdata s) div bufSize * bufSize) (rdata s)"
proof (induction "length (rdata s)" arbitrary: s rule: less_induct)
  case less
  show ?case
  proof (cases "bufSize \<le> length (rdata s)")
    case True
    let ?s' = "s\<lparr>rdata := drop bufSize (rdata s)\<rparr>"
    have shorter: "length (rdata ?s') < length (rdata s)"
      using True bufSize_pos by simp
    have d: "length (rdata s) div bufSize = Suc ((length (rdata s) - bufSize) div bufSize)"
      using True bufSize_pos by (simp add: le_div_geq)
    have "take (length (rdata s) div bufSize * bufSize) (rdata s)
            = take bufSize (rdata s)
                @ take ((length (rdata s) - bufSize) div bufSize * bufSize) (drop bufSize (rdata s))"
      by (simp add: d take_add)
    then show ?thesis
      using less.hyps [OF shorter]
      by (simp add: producer_full [OF True] producer_nonempty)
  next
    case False
    then have short: "length (rdata s) < bufSize" by simp
    then show ?thesis by (simp add: producer_short [OF short])
  qed
qed

lemma errTrailer_head:
  assumes "length msg \<le> bufSize"
  shows "\<exists>more. errTrailer msg = mkFrame SourceErr msg # more @ [mkFrame SourceEOF []]"
proof (cases "length msg < bufSize")
  case True
  then have "length (rdata (strings_NewReader msg)) < bufSize"
    by (simp add: strings_NewReader_def)
  from producer_short [OF this] show ?thesis
    by (simp add: errTrailer_def strings_NewReader_def)
next
  case False
  with assms have "bufSize \<le> length (rdata (strings_NewReader msg))" and "take bufSize msg = msg"
    by (simp_all add: strings_NewReader_def)
  with producer_full [of "strings_NewReader msg"] show ?thesis
    by (simp add: errTrailer_def strings_NewReader_def)
qed

text \<open>
  Claim C6, amended.  Let the source fail with an error other than \<^verbatim>\<open>io.EOF\<close> and
  \<^verbatim>\<open>io.ErrUnexpectedEOF\<close> whose message has at most \<open>2 ^ 19\<close> bytes, the stream type be a
  user type and no write fail.  Then \<^verbatim>\<open>WriteStream\<close> returns a nil error, and the frames
  it has written are data frames of type \<open>stype\<close>, then a frame of type \<^verbatim>\<open>SourceErr\<close>
  whose payload is the message, then the rest of the trailer.  \<^verbatim>\<open>ReadStream\<close> on these
  frames hands the receiver the bytes of the full buffers read before the failure and
  returns an error whose message is \<^verbatim>\<open>stream error: \<close> followed by the message of the
  source error as \<^verbatim>\<open>%q\<close> quotes it.
\<close>

theorem WriteStream_source_error:
  assumes "stype \<noteq> 0" "stype \<noteq> SourceEOF" "stype \<noteq> SourceErr"
    and "reliable c"
    and "rfinal src \<noteq> io_EOF" "rfinal src \<noteq> io_ErrUnexpectedEOF"
    and "length (Error (rfinal src)) \<le> bufSize"
  shows "\<exists>c'. WriteStream c src stype = Returns (c', None) \<and>
           (\<exists>pre post. drop (length (outgoing c)) (outgoing c')
                          = pre @ mkFrame SourceErr (Error (rfinal src)) # post \<and>
                        list_all (\<lambda>fr. ftype fr = stype) pre \<and>
                        post \<noteq> [] \<and> last post = mkFrame SourceEOF []) \<and>
           (\<forall>peer w. incoming peer = drop (length (outgoing c)) (outgoing c') \<longrightarrow>
              ReadStream quote bytes_Buffer_Write peer w stype
                = (w @ take (length (rdata src) div bufSize * bufSize) (rdata src),
                   Some (errorString (''stream error: '' @ quote (Error (rfinal src))))))"
proof -
  let ?msg = "Error (rfinal src)"
  let ?bs = "map read_buf (butlast (producer src))"
  let ?pre = "map (mkFrame stype) ?bs"
  from errTrailer_head [OF assms(7)] obtain more
    where tr: "errTrailer ?msg = mkFrame SourceErr ?msg # more @ [mkFrame SourceEOF []]" by blast
  let ?post = "more @ [mkFrame SourceEOF []]"
  let ?c' = "sent c (?pre @ mkFrame SourceErr ?msg # ?post)"
  have unclean: "\<not> cleanEnd src"
    using assms(5,6) by (simp add: cleanEnd_def)
  have w: "WriteStream c src stype = Returns (?c', None)"
    using consumer_failing [OF assms(4) unclean, of stype] assms(1) tr
    by (simp add: WriteStream.simps)
  have fr: "drop (length (outgoing c)) (outgoing ?c') = ?pre @ mkFrame SourceErr ?msg # ?post"
    by (rule written_sent)
  have pre: "list_all (\<lambda>fr. ftype fr = stype) ?pre"
    by (simp add: list_all_iff mkFrame_def)
  have r: "ReadStream quote bytes_Buffer_Write peer w stype
             = (w @ take (length (rdata src) div bufSize * bufSize) (rdata src),
                Some (errorString (''stream error: '' @ quote ?msg)))"
    if "incoming peer = drop (length (outgoing c)) (outgoing ?c')" for peer w
  proof -
    from that fr have inc: "incoming peer = map (mkFrame stype) ?bs @ mkFrame SourceErr ?msg # ?post"
      by simp
    have t: "ftype (mkFrame SourceErr ?msg) = SourceEOF \<or> ftype (mkFrame SourceErr ?msg) = SourceErr"
      by (simp add: mkFrame_def)
    show ?thesis
      using ReadStream_terminated [OF assms(2,3) t inc, of quote w] SourceEOF_neq_SourceErr
      by (simp add: mkFrame_def concat_full_reads)
  qed
  have post: "?post \<noteq> [] \<and> last ?post = mkFrame SourceEOF []"
    by simp
  from w fr pre post r show ?thesis by blast
qed


lemma producer_disk_gone:
  "length d < bufSize \<Longrightarrow>
   producer \<lparr>rdata = d, rfinal = errorString ''disk gone''\<rparr>
     = [\<lparr>read_buf = d, read_err = Some (errorString ''disk gone'')\<rparr>]"
  using producer_short [of "\<lparr>rdata = d, rfinal = errorString ''disk gone''\<rparr>"] by simp

lemma producer_msg_disk_gone:
  "producer (strings_NewReader ''disk gone'') = [\<lparr>read_buf = ''disk gone'', read_err = Some io_EOF\<rparr>]"
proof -
  have "length (rdata (strings_NewReader ''disk gone'')) < bufSize"
    by (simp add: strings_NewReader_def bufSize_def)
  from producer_short [OF this] show ?thesis
    by (simp add: strings_NewReader_def)
qed

lemma WriteStream_disk_gone:
  "length d < bufSize \<Longrightarrow>
   WriteStream conn0 \<lparr>rdata = d, rfinal = errorString ''disk gone''\<rparr> 7
     = Returns (sent conn0 [mkFrame SourceErr ''disk gone'', mkFrame SourceEOF []], None)"
  using SourceErr_neq_0
  by (simp add: WriteStream.simps producer_disk_gone producer_msg_disk_gone WriteFrame_def
      conn0_def sent_def mkFrame_def)

lemma ReadStream_disk_gone:
  "ReadStream quote bytes_Buffer_Write
      (peerOf [mkFrame SourceErr ''disk gone'', mkFrame SourceEOF []]) [] 7
     = ([], Some (errorString (''stream error: '' @ quote ''disk gone'')))"
proof -
  have s: "(7::uint32) \<noteq> SourceEOF" "(7::uint32) \<noteq> SourceErr"
    by (simp_all add: SourceEOF_def SourceErr_def)
  have t: "ftype (mkFrame SourceErr ''disk gone'') = SourceEOF
             \<or> ftype (mkFrame SourceErr ''disk gone'') = SourceErr"
    by (simp add: mkFrame_def)
  have inc: "incoming (peerOf [mkFrame SourceErr ''disk gone'', mkFrame SourceEOF []])
               = map (mkFrame 7) [] @ mkFrame SourceErr ''disk gone'' # [mkFrame SourceEOF []]"
    by (simp add: peerOf_def)
  from ReadStream_terminated [OF s t inc, of quote "[]"] SourceEOF_neq_SourceErr
  show ?thesis by (simp add: mkFrame_def)
qed

theorem WriteStream_source_error_witness:
  "WriteStream conn0 \<lparr>rdata = ''abc'', rfinal = errorString ''disk gone''\<rparr> 7
     = Returns (sent conn0 [mkFrame SourceErr ''disk gone'', mkFrame SourceEOF []], None) \<and>
   ReadStream id bytes_Buffer_Write
      (peerOf [mkFrame SourceErr ''disk gone'', mkFrame SourceEOF []]) [] 7
     = ([], Some (errorString ''stream error: disk gone''))"
proof -
  have s: "(7::uint32) \<noteq> 0" "(7::uint32) \<noteq> SourceEOF" "(7::uint32) \<noteq> SourceErr"
    by (simp_all add: SourceEOF_def SourceErr_def)
  let ?src = "\<lparr>rdata = ''abc'', rfinal = errorString ''disk gone''\<rparr>"
  have e: "rfinal ?src \<noteq> io_EOF" "rfinal ?src \<noteq> io_ErrUnexpectedEOF"
    by simp_all
  have l: "length (Error (rfinal ?src)) \<le> bufSize"
    by (simp add: bufSize_def)
  have w: "WriteStream conn0 ?src 7
     = Returns (sent conn0 [mkFrame SourceErr ''disk gone'', mkFrame SourceEOF []], None)"
    by (rule WriteStream_disk_gone) (simp add: bufSize_def)
  from WriteStream_source_error [OF s reliable_conn0 e l, of id]
  obtain c' where c': "WriteStream conn0 ?src 7 = Returns (c', None)"
    and rd: "\<And>peer w. incoming peer = drop (length (outgoing conn0)) (outgoing c') \<Longrightarrow>
              ReadStream id bytes_Buffer_Write peer w 7
                = (w @ take (length (rdata ?src) div bufSize * bufSize) (rdata ?src),
                   Some (errorString (''stream error: '' @ id (Error (rfinal ?src)))))"
    by blast
  from c' w have "c' = sent conn0 [mkFrame SourceErr ''disk gone'', mkFrame SourceEOF []]"
    by simp
  then have "incoming (peerOf [mkFrame SourceErr ''disk gone'', mkFrame SourceEOF []])
               = drop (length (outgoing conn0)) (outgoing c')"
    by (simp add: peerOf_def written_sent)
  from rd [OF this, of "[]"] w show ?thesis
    by (simp add: bufSize_def)
qed

text \<open>
  Claim C6 as stated fails: for the source error \<^verbatim>\<open>disk gone\<close> the error of
  \<^verbatim>\<open>ReadStream\<close> has a message that starts with \<^verbatim>\<open>stream error: \<close>, which is not the
  message of the source error, whatever \<^verbatim>\<open>%q\<close> makes of its argument.
\<close>

theorem ReadStream_error_message_wrapped:
  "WriteStream conn0 \<lparr>rdata = [], rfinal = errorString ''disk gone''\<rparr> 7
     = Returns (sent conn0 [mkFrame SourceErr ''disk gone'', mkFrame SourceEOF []], None) \<and>
   (\<forall>quote.
      snd (ReadStream quote bytes_Buffer_Write
             (peerOf [mkFrame SourceErr ''disk gone'', mkFrame SourceEOF []]) [] 7)
        = Some (errorString (''stream error: '' @ quote ''disk gone'')) \<and>
      Error (errorString (''stream error: '' @ quote ''disk gone''))
        \<noteq> Error (errorString ''disk gone''))"
proof -
  have "WriteStream conn0 \<lparr>rdata = [], rfinal = errorString ''disk gone''\<rparr> 7
     = Returns (sent conn0 [mkFrame SourceErr ''disk gone'', mkFrame SourceEOF []], None)"
    by (rule WriteStream_disk_gone) (simp add: bufSize_def)
  moreover have "length (''stream error: '' @ q) \<noteq> length ''disk gone''" for q :: string
    by simp
  then have "''stream error: '' @ q \<noteq> ''disk gone''" for q :: string
    by metis
  ultimately show ?thesis
    by (simp add: ReadStream_disk_gone)
qed

section \<open>Package replication: the wire form of a filesystem version\<close>

text \<open>
  An instant (\<^verbatim>\<open>time.Time\<close>) is counted in nanoseconds from the zero instant
  \<^verbatim>\<open>time.Time{}\<close>; a \<^verbatim>\<open>time.Duration\<close> is a number of nanoseconds.
\<close>

type_synonym time = int

definition time_zero :: time where
  "time_zero = 0"

definition time_Second :: int where
  "time_Second = 1000000000"

text \<open>
  The protobuf message \<^verbatim>\<open>FilesystemVersion\<close>.  Its \<^verbatim>\<open>Type\<close> is a protobuf enumeration, an
  \<^verbatim>\<open>int32\<close> with the named values \<^verbatim>\<open>Snapshot = 0\<close> and \<^verbatim>\<open>Bookmark = 1\<close>.
\<close>

type_synonym FilesystemVersion_VersionType = "32 word"

definition FilesystemVersion_Snapshot :: FilesystemVersion_VersionType where
  "FilesystemVersion_Snapshot = 0"

definition FilesystemVersion_Bookmark :: FilesystemVersion_VersionType where
  "FilesystemVersion_Bookmark = 1"

record FilesystemVersion =
  Type :: FilesystemVersion_VersionType
  Name :: string
  Guid :: "64 word"
  CreateTXG :: "64 word"
  Creation :: string

record Filesystem =
  Path :: string
  ResumeToken :: string

text \<open>
  The in-memory form \<^verbatim>\<open>zfs.FilesystemVersion\<close>; of the version types of package \<^verbatim>\<open>zfs\<close>
  the two that the conversion names.
\<close>

datatype zfs_VersionType = zfs_Bookmark | zfs_Snapshot

record zfs_FilesystemVersion =
  zfs_Type :: zfs_VersionType
  zfs_Name :: string
  zfs_Guid :: "64 word"
  zfs_CreateTXG :: "64 word"
  zfs_Creation :: time

text \<open>\<^verbatim>\<open>func (v FilesystemVersion_VersionType) ZFSVersionType() zfs.VersionType\<close>\<close>

definition ZFSVersionType :: "FilesystemVersion_VersionType \<Rightarrow> zfs_VersionType outcome" where
  "ZFSVersionType v =
     (if v = FilesystemVersion_Snapshot then Returns zfs_Snapshot
      else if v = FilesystemVersion_Bookmark then Returns zfs_Bookmark
      else Panics ''unexpected v.Type'')"

text \<open>
  \<^verbatim>\<open>func (v *FilesystemVersion) ZFSFilesystemVersion() *zfs.FilesystemVersion\<close>.
  \<open>parse\<close> is \<^verbatim>\<open>time.Parse(time.RFC3339, _)\<close> of the standard library, a parameter of the
  model.  The function has no error result: a creation time that does not parse is a
  \<^verbatim>\<open>panic(err)\<close>.
\<close>

definition ZFSFilesystemVersion ::
  "(string \<Rightarrow> error + time) \<Rightarrow> FilesystemVersion \<Rightarrow> zfs_FilesystemVersion outcome" where
  "ZFSFilesystemVersion parse v =
     (case (if Creation v \<noteq> []
            then (case parse (Creation v) of Inl e \<Rightarrow> Panics (Error e) | Inr ct \<Rightarrow> Returns ct)
            else Returns time_zero) of
        Panics m \<Rightarrow> Panics m
      | Returns ct \<Rightarrow>
          (case ZFSVersionType (Type v) of
             Panics m \<Rightarrow> Panics m
           | Returns ty \<Rightarrow>
               Returns \<lparr>zfs_Type = ty, zfs_Name = Name v, zfs_Guid = Guid v,
                        zfs_CreateTXG = CreateTXG v, zfs_Creation = ct\<rparr>))"

text \<open>
  \<^verbatim>\<open>func (v *FilesystemVersion) RelName() string\<close>, with the method \<^verbatim>\<open>String()\<close> of
  \<^verbatim>\<open>zfs.FilesystemVersion\<close> as the parameter \<open>zstr\<close>.
\<close>

definition RelName ::
  "(string \<Rightarrow> error + time) \<Rightarrow> (zfs_FilesystemVersion \<Rightarrow> string) \<Rightarrow> FilesystemVersion
     \<Rightarrow> string outcome" where
  "RelName parse zstr v =
     (case ZFSFilesystemVersion parse v of Panics m \<Rightarrow> Panics m | Returns zv \<Rightarrow> Returns (zstr zv))"

section \<open>Package pruner: the pruner state machine\<close>

subsection \<open>Collaborators of the pruner\<close>

text \<open>
  Modelled from the spec: the status of \<^verbatim>\<open>SnapshotReplicationStatusRes\<close> and the request
  \<^verbatim>\<open>SnapshotReplicationStatusReq\<close> (their protobuf declarations are not part of the sources
  at hand): "\<open>SnapshotReplicationStatus(filesystem, snapshot, op = Get)\<close> \<open>\<rightarrow>\<close>
  \<open>{status \<in> {Nonexistent, NotReplicated, Replicated}}\<close>".
\<close>

datatype SnapshotReplicationStatusRes_Status =
    SnapshotReplicationStatusRes_Nonexistent
  | SnapshotReplicationStatusRes_NotReplicated
  | SnapshotReplicationStatusRes_Replicated

datatype SnapshotReplicationStatusReq_Op = SnapshotReplicationStatusReq_Get

record SnapshotReplicationStatusReq =
  srs_Filesystem :: string
  srs_Snapshot :: string
  srs_Op :: SnapshotReplicationStatusReq_Op

record DestroySnapshotsReq =
  ds_Filesystem :: string
  ds_Snapshots :: "FilesystemVersion list"

text \<open>
  The interfaces \<^verbatim>\<open>Target\<close> and \<^verbatim>\<open>History\<close> and the context.  A remote call may answer
  differently each time it is made, so every method takes the number of calls and
  waits the pruner has made before it.  A call returns its error (\<open>Inl\<close>) or its
  result; of the result of \<^verbatim>\<open>DestroySnapshots\<close> the pruner reads the error only.
  In a wait, \<open>ctx_Done t\<close> tells whether the context is done before the timer fires, and
  \<open>ctx_Err\<close> is what \<^verbatim>\<open>ctx.Err()\<close> returns then.
\<close>

record Target =
  ListFilesystems :: "nat \<Rightarrow> error + Filesystem list"
  ListFilesystemVersions :: "nat \<Rightarrow> string \<Rightarrow> error + FilesystemVersion list"
  DestroySnapshots :: "nat \<Rightarrow> DestroySnapshotsReq \<Rightarrow> error option"

record History =
  SnapshotReplicationStatus ::
    "nat \<Rightarrow> SnapshotReplicationStatusReq \<Rightarrow> error + SnapshotReplicationStatusRes_Status"

record Context =
  ctx_Done :: "nat \<Rightarrow> bool"
  ctx_Err :: error

text \<open>\<^verbatim>\<open>type snapshot struct\<close> and \<^verbatim>\<open>type fs struct\<close>.\<close>

record snapshot =
  replicated :: bool
  date :: time
  fsv :: FilesystemVersion

record fs =
  path :: string
  snaps :: "snapshot list"
  fs_err :: "error option"

text \<open>
  Functions of other packages that the pruner calls, parameters of the model:
  \<^verbatim>\<open>time.Parse(time.RFC3339, _)\<close>, the method \<^verbatim>\<open>CreationAsTime\<close> of a wire version, the
  methods \<^verbatim>\<open>String\<close> of \<^verbatim>\<open>zfs.FilesystemVersion\<close> and of \<^verbatim>\<open>pdu.Filesystem\<close>, and the
  pruning policy \<^verbatim>\<open>pruning.PruneSnapshots\<close> over keep rules of type \<open>'r\<close>.
\<close>

record 'r externals =
  time_Parse :: "string \<Rightarrow> error + time"
  CreationAsTime :: "FilesystemVersion \<Rightarrow> error + time"
  zfs_String :: "zfs_FilesystemVersion \<Rightarrow> string"
  Filesystem_String :: "Filesystem \<Rightarrow> string"
  PruneSnapshots :: "snapshot list \<Rightarrow> 'r list \<Rightarrow> snapshot list"

subsection \<open>The pruner and its factory\<close>

record 'r args =
  ctx :: Context
  target :: Target
  receiver :: History
  rules :: "'r list"
  retryWait :: int

datatype State = Plan | PlanWait | Exec | ExecWait | ErrPerm | Done

record 'r Pruner =
  args :: "'r args"
  state :: State
  sleepUntil :: time
  err :: "error option"
  prunePending :: "fs list"
  pruneCompleted :: "fs list"

record 'r PrunerFactory =
  senderRules :: "'r list"
  receiverRules :: "'r list"
  f_retryWait :: int

text \<open>
  \<^verbatim>\<open>func checkContainsKeep1(rules []pruning.KeepRule) error\<close>.  \<open>isKeepLastN\<close> is the type
  test \<^verbatim>\<open>case *pruning.KeepLastN\<close>; \<open>keep1Loop\<close> is the loop over the rules with the
  \<^verbatim>\<open>return\<close> after it.
\<close>

fun keep1Loop :: "('r \<Rightarrow> bool) \<Rightarrow> 'r list \<Rightarrow> error option" where
  "keep1Loop isKeepLastN [] =
     Some (errorString
       ''sender keep rules must contain last_n or be empty so that the last snapshot is definitely kept'')"
| "keep1Loop isKeepLastN (e # es) = (if isKeepLastN e then None else keep1Loop isKeepLastN es)"

definition checkContainsKeep1 :: "('r \<Rightarrow> bool) \<Rightarrow> 'r list \<Rightarrow> error option" where
  "checkContainsKeep1 isKeepLastN rs =
     (if length rs = 0 then None else keep1Loop isKeepLastN rs)"

text \<open>
  \<^verbatim>\<open>config.PruningSenderReceiver\<close> with rule configurations of type \<open>'c\<close>, and
  \<^verbatim>\<open>func NewPrunerFactory(in config.PruningSenderReceiver) (*PrunerFactory, error)\<close> with
  \<^verbatim>\<open>pruning.RulesFromConfig\<close> as a parameter.  \<^verbatim>\<open>errors.Wrap(err, msg)\<close> is an error with the
  message \<^verbatim>\<open>msg: err\<close>.
\<close>

record 'c PruningSenderReceiver =
  KeepSender :: 'c
  KeepReceiver :: 'c

definition errors_Wrap :: "error \<Rightarrow> string \<Rightarrow> error" where
  "errors_Wrap e msg = errorString (msg @ '': '' @ Error e)"

definition NewPrunerFactory ::
  "('c \<Rightarrow> error + 'r list) \<Rightarrow> ('r \<Rightarrow> bool) \<Rightarrow> 'c PruningSenderReceiver
     \<Rightarrow> error + 'r PrunerFactory" where
  "NewPrunerFactory RulesFromConfig isKeepLastN inp =
     (case RulesFromConfig (KeepReceiver inp) of
        Inl e \<Rightarrow> Inl (errors_Wrap e ''cannot build receiver pruning rules'')
      | Inr keepRulesReceiver \<Rightarrow>
          (case RulesFromConfig (KeepSender inp) of
             Inl e \<Rightarrow> Inl (errors_Wrap e ''cannot build sender pruning rules'')
           | Inr keepRulesSender \<Rightarrow>
               (case checkContainsKeep1 isKeepLastN keepRulesSender of
                  Some e \<Rightarrow> Inl e
                | None \<Rightarrow>
                    Inr \<lparr>senderRules = keepRulesSender, receiverRules = keepRulesReceiver,
                         f_retryWait = 10 * time_Second\<rparr>)))"

text \<open>\<^verbatim>\<open>BuildSenderPruner\<close> and \<^verbatim>\<open>BuildReceiverPruner\<close>; the logger of the context is left out.\<close>

definition BuildSenderPruner ::
  "'r PrunerFactory \<Rightarrow> Context \<Rightarrow> Target \<Rightarrow> History \<Rightarrow> 'r Pruner" where
  "BuildSenderPruner f c tg rcv =
     \<lparr>args = \<lparr>ctx = c, target = tg, receiver = rcv, rules = senderRules f,
               retryWait = f_retryWait f\<rparr>,
      state = Plan, sleepUntil = time_zero, err = None, prunePending = [], pruneCompleted = []\<rparr>"

definition BuildReceiverPruner ::
  "'r PrunerFactory \<Rightarrow> Context \<Rightarrow> Target \<Rightarrow> History \<Rightarrow> 'r Pruner" where
  "BuildReceiverPruner f c tg rcv =
     \<lparr>args = \<lparr>ctx = c, target = tg, receiver = rcv, rules = receiverRules f,
               retryWait = f_retryWait f\<rparr>,
      state = Plan, sleepUntil = time_zero, err = None, prunePending = [], pruneCompleted = []\<rparr>"

subsection \<open>The state functions\<close>

text \<open>\<^verbatim>\<open>func shouldRetry(e error) bool\<close>: a nil error and a \<^verbatim>\<open>net.Error\<close> are retried.\<close>

fun shouldRetry :: "error option \<Rightarrow> bool" where
  "shouldRetry None = True"
| "shouldRetry (Some (netError m)) = True"
| "shouldRetry (Some e) = False"

text \<open>
  A state function works on the pruner through the updater \<^verbatim>\<open>u\<close>, which runs a function
  on the pruner under its lock and returns the pruner's state, and it returns the state
  function of that state.  In the model a state function takes the number of calls made
  so far and the pruner, and returns both together with the state whose state function
  the source returns.

  \<^verbatim>\<open>func onErr(u updater, e error) state\<close>
\<close>

definition onErr :: "error option \<Rightarrow> nat \<times> 'r Pruner \<Rightarrow> (nat \<times> 'r Pruner \<times> State) outcome" where
  "onErr e tp =
     (case tp of (t, p0) \<Rightarrow>
        let p = p0\<lparr>err := e\<rparr> in
        if \<not> shouldRetry e then Returns (t, p\<lparr>state := ErrPerm\<rparr>, ErrPerm)
        else (case state p of
                Plan \<Rightarrow> Returns (t, p\<lparr>state := PlanWait\<rparr>, PlanWait)
              | Exec \<Rightarrow> Returns (t, p\<lparr>state := ExecWait\<rparr>, ExecWait)
              | _ \<Rightarrow> Panics ''unexpected state''))"

text \<open>
  The loop of \<^verbatim>\<open>statePlan\<close> over the versions of one filesystem.  \<open>Inl e\<close> is a
  \<^verbatim>\<open>return onErr(u, e)\<close> inside the loop, \<open>Inr pfs\<close> the end of the loop (also by
  \<^verbatim>\<open>break\<close>) with the record \<open>pfs\<close>.
\<close>

fun planSnaps ::
  "'r externals \<Rightarrow> History \<Rightarrow> Filesystem \<Rightarrow> nat \<Rightarrow> fs \<Rightarrow> FilesystemVersion list
     \<Rightarrow> (nat \<times> (error + fs)) outcome" where
  "planSnaps X rcv tfs t pfs [] = Returns (t, Inr pfs)"
| "planSnaps X rcv tfs t pfs (tfsv # tfsvs) =
     (if Type tfsv \<noteq> FilesystemVersion_Snapshot then planSnaps X rcv tfs t pfs tfsvs
      else (case CreationAsTime X tfsv of
        Inl e \<Rightarrow>
          (case RelName (time_Parse X) (zfs_String X) tfsv of
             Panics m \<Rightarrow> Panics m
           | Returns rn \<Rightarrow>
               Returns (t, Inl (errorString
                 (Filesystem_String X tfs @ rn @ '' has invalid creation date: '' @ Error e))))
      | Inr creation \<Rightarrow>
          (let req = \<lparr>srs_Filesystem = Path tfs, srs_Snapshot = Name tfsv,
                      srs_Op = SnapshotReplicationStatusReq_Get\<rparr> in
           case SnapshotReplicationStatus rcv t req of
             Inl e \<Rightarrow>
               if shouldRetry (Some e) then Returns (Suc t, Inl e)
               else Returns (Suc t, Inr (pfs\<lparr>fs_err := Some e, snaps := []\<rparr>))
           | Inr status \<Rightarrow>
               planSnaps X rcv tfs (Suc t)
                 (pfs\<lparr>snaps := snaps pfs @
                    [\<lparr>replicated = (\<not> (status \<noteq> SnapshotReplicationStatusRes_Replicated)),
                      date = creation, fsv = tfsv\<rparr>]\<rparr>)
                 tfsvs)))"

text \<open>The loop of \<^verbatim>\<open>statePlan\<close> over the filesystems of the target, building \<^verbatim>\<open>pfss\<close>.\<close>

fun planFss ::
  "'r externals \<Rightarrow> Target \<Rightarrow> History \<Rightarrow> nat \<Rightarrow> Filesystem list
     \<Rightarrow> (nat \<times> (error + fs list)) outcome" where
  "planFss X tg rcv t [] = Returns (t, Inr [])"
| "planFss X tg rcv t (tfs # tfss) =
     (case ListFilesystemVersions tg t (Path tfs) of
        Inl e \<Rightarrow> Returns (Suc t, Inl e)
      | Inr tfsvs \<Rightarrow>
          (case planSnaps X rcv tfs (Suc t) \<lparr>path = Path tfs, snaps = [], fs_err = None\<rparr> tfsvs of
             Panics m \<Rightarrow> Panics m
           | Returns (t', Inl e) \<Rightarrow> Returns (t', Inl e)
           | Returns (t', Inr pfs) \<Rightarrow>
               (case planFss X tg rcv t' tfss of
                  Panics m \<Rightarrow> Panics m
                | Returns (t'', Inl e) \<Rightarrow> Returns (t'', Inl e)
                | Returns (t'', Inr pfss) \<Rightarrow> Returns (t'', Inr (pfs # pfss)))))"

text \<open>The last update of \<^verbatim>\<open>statePlan\<close>: every record goes to one of the two lists.\<close>

fun planned :: "'r Pruner \<Rightarrow> fs list \<Rightarrow> 'r Pruner" where
  "planned p [] = p"
| "planned p (pfs # pfss) =
     planned (if fs_err pfs \<noteq> None then p\<lparr>pruneCompleted := pruneCompleted p @ [pfs]\<rparr>
              else p\<lparr>prunePending := prunePending p @ [pfs]\<rparr>) pfss"

text \<open>\<^verbatim>\<open>func statePlan(a *args, u updater) state\<close>\<close>

definition statePlan ::
  "'r externals \<Rightarrow> 'r args \<Rightarrow> nat \<times> 'r Pruner \<Rightarrow> (nat \<times> 'r Pruner \<times> State) outcome" where
  "statePlan X a tp =
     (case tp of (t, p) \<Rightarrow>
        (case ListFilesystems (target a) t of
           Inl e \<Rightarrow> onErr (Some e) (Suc t, p)
         | Inr tfss \<Rightarrow>
             (case planFss X (target a) (receiver a) (Suc t) tfss of
                Panics m \<Rightarrow> Panics m
              | Returns (t', Inl e) \<Rightarrow> onErr (Some e) (t', p)
              | Returns (t', Inr pfss) \<Rightarrow>
                  Returns (t', (planned p pfss)\<lparr>state := Exec\<rparr>, Exec))))"









section \<open>Properties of the conversion and of the pruner\<close>

subsection \<open>The conversion of a filesystem version\<close>

text \<open>
  Claim C7, amended.  \<^verbatim>\<open>ZFSFilesystemVersion\<close> panics with the parse error when the creation
  field is not empty and does not parse; when the creation field is empty and the type
  is \<^verbatim>\<open>Snapshot\<close> or \<^verbatim>\<open>Bookmark\<close>, it returns a version whose creation time is the zero
  instant.
\<close>

theorem ZFSFilesystemVersion_conversion:
  "(Creation v \<noteq> [] \<and> parse (Creation v) = Inl e \<longrightarrow>
      ZFSFilesystemVersion parse v = Panics (Error e)) \<and>
   (Creation v = [] \<and>
    (Type v = FilesystemVersion_Snapshot \<or> Type v = FilesystemVersion_Bookmark) \<longrightarrow>
      (\<exists>zv. ZFSFilesystemVersion parse v = Returns zv \<and> zfs_Creation zv = time_zero))"
  by (auto simp: ZFSFilesystemVersion_def ZFSVersionType_def)

text \<open>A parser that accepts no string, for the examples.\<close>

definition rejectAll :: "string \<Rightarrow> error + time" where
  "rejectAll s = Inl (errorString (''cannot parse '' @ s))"

theorem ZFSFilesystemVersion_conversion_witness:
  "ZFSFilesystemVersion rejectAll
     \<lparr>Type = FilesystemVersion_Snapshot, Name = ''a'', Guid = 1, CreateTXG = 2, Creation = ''yesterday''\<rparr>
     = Panics ''cannot parse yesterday'' \<and>
   ZFSFilesystemVersion rejectAll
     \<lparr>Type = FilesystemVersion_Snapshot, Name = ''a'', Guid = 1, CreateTXG = 2, Creation = []\<rparr>
     = Returns \<lparr>zfs_Type = zfs_Snapshot, zfs_Name = ''a'', zfs_Guid = 1, zfs_CreateTXG = 2,
                zfs_Creation = time_zero\<rparr>"
proof -
  let ?bad = "\<lparr>Type = FilesystemVersion_Snapshot, Name = ''a'', Guid = 1, CreateTXG = 2,
               Creation = ''yesterday''\<rparr>"
  let ?empty = "\<lparr>Type = FilesystemVersion_Snapshot, Name = ''a'', Guid = 1, CreateTXG = 2,
                 Creation = []\<rparr>"
  have "Creation ?bad \<noteq> [] \<and> rejectAll (Creation ?bad) = Inl (errorString ''cannot parse yesterday'')"
    by (simp add: rejectAll_def)
  with ZFSFilesystemVersion_conversion [of ?bad rejectAll "errorString ''cannot parse yesterday''"]
  have 1: "ZFSFilesystemVersion rejectAll ?bad = Panics ''cannot parse yesterday''"
    by simp
  have "Creation ?empty = [] \<and>
        (Type ?empty = FilesystemVersion_Snapshot \<or> Type ?empty = FilesystemVersion_Bookmark)"
    by simp
  with ZFSFilesystemVersion_conversion [of ?empty rejectAll]
  obtain zv where "ZFSFilesystemVersion rejectAll ?empty = Returns zv" "zfs_Creation zv = time_zero"
    by blast
  then have 2: "ZFSFilesystemVersion rejectAll ?empty
     = Returns \<lparr>zfs_Type = zfs_Snapshot, zfs_Name = ''a'', zfs_Guid = 1, zfs_CreateTXG = 2,
                zfs_Creation = time_zero\<rparr>"
    by (simp add: ZFSFilesystemVersion_def ZFSVersionType_def)
  from 1 2 show ?thesis by simp
qed

text \<open>
  Claim C7 as stated fails: the conversion of a version whose creation field does not
  parse does not return at all, it panics.
\<close>

theorem ZFSFilesystemVersion_panics_on_parse_error:
  "ZFSFilesystemVersion rejectAll
     \<lparr>Type = FilesystemVersion_Snapshot, Name = ''a'', Guid = 1, CreateTXG = 2, Creation = ''yesterday''\<rparr>
     = Panics ''cannot parse yesterday''"
  by (simp add: ZFSFilesystemVersion_def rejectAll_def)

subsection \<open>The pruner factory\<close>

lemma keep1Loop_None: "keep1Loop isK rs = None \<longleftrightarrow> (\<exists>r \<in> set rs. isK r)"
  by (induction rs) auto

lemma checkContainsKeep1_iff:
  "checkContainsKeep1 isK rs = None \<longleftrightarrow> rs = [] \<or> (\<exists>r \<in> set rs. isK r)"
  by (auto simp: checkContainsKeep1_def keep1Loop_None)

text \<open>
  Claim C8, amended.  \<^verbatim>\<open>NewPrunerFactory\<close> fails exactly when the receiver rules cannot be
  built, or the sender rules cannot be built, or the sender rules are built, are not
  empty and hold no \<^verbatim>\<open>KeepLastN\<close>.  When both rule sets are built, with sender rules
  \<open>sr\<close> and receiver rules \<open>rr\<close>: a non-empty \<open>sr\<close> without a \<^verbatim>\<open>KeepLastN\<close> is rejected
  with the error of \<^verbatim>\<open>checkContainsKeep1\<close>, and with \<open>sr\<close> empty or with a \<^verbatim>\<open>KeepLastN\<close> in
  \<open>sr\<close> the factory of these rules is returned.  \<^verbatim>\<open>checkContainsKeep1\<close> itself returns an
  error exactly for a non-empty list without a \<^verbatim>\<open>KeepLastN\<close>.
\<close>

theorem NewPrunerFactory_fails_iff:
  "((\<exists>e. NewPrunerFactory RulesFromConfig isKeepLastN inp = Inl e) \<longleftrightarrow>
      (\<exists>e. RulesFromConfig (KeepReceiver inp) = Inl e) \<or>
      (\<exists>e. RulesFromConfig (KeepSender inp) = Inl e) \<or>
      (\<exists>sr. RulesFromConfig (KeepSender inp) = Inr sr \<and> sr \<noteq> [] \<and>
            \<not> (\<exists>r \<in> set sr. isKeepLastN r))) \<and>
   (RulesFromConfig (KeepReceiver inp) = Inr rr \<and> RulesFromConfig (KeepSender inp) = Inr sr \<and>
    sr \<noteq> [] \<and> \<not> (\<exists>r \<in> set sr. isKeepLastN r) \<longrightarrow>
      NewPrunerFactory RulesFromConfig isKeepLastN inp
        = Inl (errorString
            ''sender keep rules must contain last_n or be empty so that the last snapshot is definitely kept'')) \<and>
   (RulesFromConfig (KeepReceiver inp) = Inr rr \<and> RulesFromConfig (KeepSender inp) = Inr sr \<and>
    (sr = [] \<or> (\<exists>r \<in> set sr. isKeepLastN r)) \<longrightarrow>
      NewPrunerFactory RulesFromConfig isKeepLastN inp
        = Inr \<lparr>senderRules = sr, receiverRules = rr, f_retryWait = 10 * time_Second\<rparr>) \<and>
   ((\<exists>e. checkContainsKeep1 isKeepLastN rs = Some e)
      \<longleftrightarrow> rs \<noteq> [] \<and> \<not> (\<exists>r \<in> set rs. isKeepLastN r))"
proof -
  have k: "keep1Loop isKeepLastN xs
             = (if \<exists>r \<in> set xs. isKeepLastN r then None
                else Some (errorString
                  ''sender keep rules must contain last_n or be empty so that the last snapshot is definitely kept''))"
    for xs
    by (induction xs) auto
  have c: "checkContainsKeep1 isKeepLastN xs
             = (if xs = [] \<or> (\<exists>r \<in> set xs. isKeepLastN r) then None
                else Some (errorString
                  ''sender keep rules must contain last_n or be empty so that the last snapshot is definitely kept''))"
    for xs
    by (auto simp: checkContainsKeep1_def k)
  show ?thesis
  proof (cases "RulesFromConfig (KeepReceiver inp)")
    case (Inl e)
    then show ?thesis by (simp add: NewPrunerFactory_def c)
  next
    case rcv: (Inr rr')
    show ?thesis
    proof (cases "RulesFromConfig (KeepSender inp)")
      case (Inl e)
      with rcv show ?thesis by (simp add: NewPrunerFactory_def c)
    next
      case (Inr sr')
      with rcv show ?thesis by (simp add: NewPrunerFactory_def c)
    qed
  qed
qed

text \<open>
  Rule configurations and rules named by strings, for the examples: the configuration
  of a rule set is the list of the names, and one that names the rule \<^verbatim>\<open>bogus\<close> cannot be
  built.
\<close>

definition isLastN :: "string \<Rightarrow> bool" where
  "isLastN r = (r = ''last_n'')"

definition parseRules :: "string list \<Rightarrow> error + string list" where
  "parseRules c = (if ''bogus'' \<in> set c then Inl (errorString ''unknown keep rule'') else Inr c)"

theorem NewPrunerFactory_fails_iff_witness:
  "NewPrunerFactory parseRules isLastN \<lparr>KeepSender = [''regex''], KeepReceiver = []\<rparr>
     = Inl (errorString
         ''sender keep rules must contain last_n or be empty so that the last snapshot is definitely kept'') \<and>
   NewPrunerFactory parseRules isLastN \<lparr>KeepSender = [], KeepReceiver = [''regex'']\<rparr>
     = Inr \<lparr>senderRules = [], receiverRules = [''regex''], f_retryWait = 10 * time_Second\<rparr> \<and>
   NewPrunerFactory parseRules isLastN \<lparr>KeepSender = [''regex'', ''last_n''], KeepReceiver = []\<rparr>
     = Inr \<lparr>senderRules = [''regex'', ''last_n''], receiverRules = [], f_retryWait = 10 * time_Second\<rparr> \<and>
   (\<exists>e. NewPrunerFactory parseRules isLastN \<lparr>KeepSender = [''bogus''], KeepReceiver = []\<rparr> = Inl e)"
proof -
  let ?bad = "\<lparr>KeepSender = [''regex''], KeepReceiver = []\<rparr>"
  let ?none = "\<lparr>KeepSender = [], KeepReceiver = [''regex'']\<rparr>"
  let ?ok = "\<lparr>KeepSender = [''regex'', ''last_n''], KeepReceiver = []\<rparr>"
  let ?bogus = "\<lparr>KeepSender = [''bogus''], KeepReceiver = []\<rparr>"
  have 1: "NewPrunerFactory parseRules isLastN ?bad
     = Inl (errorString
         ''sender keep rules must contain last_n or be empty so that the last snapshot is definitely kept'')"
    using NewPrunerFactory_fails_iff [of parseRules isLastN ?bad "[]" "[''regex'']"]
    by (simp add: parseRules_def isLastN_def)
  have 2: "NewPrunerFactory parseRules isLastN ?none
     = Inr \<lparr>senderRules = [], receiverRules = [''regex''], f_retryWait = 10 * time_Second\<rparr>"
    using NewPrunerFactory_fails_iff [of parseRules isLastN ?none "[''regex'']" "[]"]
    by (simp add: parseRules_def)
  have 3: "NewPrunerFactory parseRules isLastN ?ok
     = Inr \<lparr>senderRules = [''regex'', ''last_n''], receiverRules = [], f_retryWait = 10 * time_Second\<rparr>"
    using NewPrunerFactory_fails_iff [of parseRules isLastN ?ok "[]" "[''regex'', ''last_n'']"]
    by (simp add: parseRules_def isLastN_def)
  have 4: "\<exists>e. NewPrunerFactory parseRules isLastN ?bogus = Inl e"
    using NewPrunerFactory_fails_iff [of parseRules isLastN ?bogus]
    by (simp add: parseRules_def)
  from 1 2 3 4 show ?thesis by simp
qed

text \<open>
  Claim C8 as stated fails: with the sender rule \<^verbatim>\<open>last_n\<close>, and also with no sender
  rule at all, the construction still fails when the receiver rules cannot be built.
\<close>

theorem NewPrunerFactory_fails_on_receiver_rules:
  "NewPrunerFactory parseRules isLastN \<lparr>KeepSender = [''last_n''], KeepReceiver = [''bogus'']\<rparr>
     = Inl (errorString ''cannot build receiver pruning rules: unknown keep rule'') \<and>
   parseRules [''last_n''] = Inr [''last_n''] \<and> isLastN ''last_n'' \<and>
   NewPrunerFactory parseRules isLastN \<lparr>KeepSender = [], KeepReceiver = [''bogus'']\<rparr>
     = Inl (errorString ''cannot build receiver pruning rules: unknown keep rule'') \<and>
   parseRules [] = Inr []"
  by (simp add: NewPrunerFactory_def parseRules_def isLastN_def errors_Wrap_def)

subsection \<open>The plan of the pruner\<close>

text \<open>
  A target with the filesystem \<^verbatim>\<open>pool/a\<close> and its one snapshot \<^verbatim>\<open>s1\<close>, a history that has
  no record of any snapshot, and a sender pruner for them.
\<close>

definition externals0 :: "string externals" where
  "externals0 =
     \<lparr>time_Parse = (\<lambda>s. Inr 0), CreationAsTime = (\<lambda>v. Inr 0), zfs_String = zfs_Name,
      Filesystem_String = Path, PruneSnapshots = (\<lambda>sn rs. [])\<rparr>"

definition snap1 :: FilesystemVersion where
  "snap1 = \<lparr>Type = FilesystemVersion_Snapshot, Name = ''s1'', Guid = 1, CreateTXG = 1,
            Creation = ''2018-01-01T00:00:00Z''\<rparr>"

definition target0 :: Target where
  "target0 =
     \<lparr>ListFilesystems = (\<lambda>t. Inr [\<lparr>Path = ''pool/a'', ResumeToken = []\<rparr>]),
      ListFilesystemVersions = (\<lambda>t p. Inr [snap1]),
      DestroySnapshots = (\<lambda>t r. None)\<rparr>"

definition history0 :: History where
  "history0 = \<lparr>SnapshotReplicationStatus = (\<lambda>t r. Inr SnapshotReplicationStatusRes_Nonexistent)\<rparr>"

definition context0 :: Context where
  "context0 = \<lparr>ctx_Done = (\<lambda>t. False), ctx_Err = errorString ''context canceled''\<rparr>"

definition factory0 :: "string PrunerFactory" where
  "factory0 = \<lparr>senderRules = [], receiverRules = [], f_retryWait = 10 * time_Second\<rparr>"

text \<open>
  Claim C1 says that a snapshot for which the history answers \<^verbatim>\<open>Nonexistent\<close> is recorded
  with \<open>replicated = true\<close>, and the source logs "assuming was replicated" for it.  The
  record is built with \<^verbatim>\<open>!(res.Status != Replicated)\<close>, which is false for
  \<^verbatim>\<open>Nonexistent\<close>: the plan for the target above holds the snapshot as not replicated.
\<close>

theorem statePlan_Nonexistent_not_replicated:
  "statePlan externals0 (args (BuildSenderPruner factory0 context0 target0 history0))
     (0, BuildSenderPruner factory0 context0 target0 history0)
   = Returns (3,
       (BuildSenderPruner factory0 context0 target0 history0)
         \<lparr>state := Exec,
          prunePending :=
            [\<lparr>path = ''pool/a'',
              snaps = [\<lparr>replicated = False, date = 0, fsv = snap1\<rparr>],
              fs_err = None\<rparr>]\<rparr>,
       Exec)"
  by (simp add: statePlan_def BuildSenderPruner_def target0_def history0_def externals0_def
      snap1_def numeral_3_eq_3)

text \<open>The same for every snapshot and every history that answers \<^verbatim>\<open>Nonexistent\<close>.\<close>

lemma planSnaps_Nonexistent:
  "Type v = FilesystemVersion_Snapshot \<Longrightarrow> CreationAsTime X v = Inr c \<Longrightarrow>
   SnapshotReplicationStatus rcv t
     \<lparr>srs_Filesystem = Path tfs, srs_Snapshot = Name v, srs_Op = SnapshotReplicationStatusReq_Get\<rparr>
     = Inr SnapshotReplicationStatusRes_Nonexistent \<Longrightarrow>
   planSnaps X rcv tfs t pfs [v]
     = Returns (Suc t, Inr (pfs\<lparr>snaps := snaps pfs @ [\<lparr>replicated = False, date = c, fsv = v\<rparr>]\<rparr>))"
  by simp

subsection \<open>The error field of the pruner\<close>


lemma planned_err [simp]: "err (planned p pfss) = err p"
  by (induction pfss arbitrary: p) auto

lemma planned_state [simp]: "state (planned p pfss) = state p"
  by (induction pfss arbitrary: p) auto










text \<open>
  An environment in which, from the call number \<open>t0\<close> on, every call of the target and
  of the history succeeds, the context does not end, and every creation time parses.
\<close>

definition succeedsFrom :: "'r externals \<Rightarrow> 'r args \<Rightarrow> nat \<Rightarrow> bool" where
  "succeedsFrom X a t0 =
     ((\<forall>t \<ge> t0.
         (\<exists>tfss. ListFilesystems (target a) t = Inr tfss) \<and>
         (\<forall>pth. \<exists>tfsvs. ListFilesystemVersions (target a) t pth = Inr tfsvs) \<and>
         (\<forall>req. DestroySnapshots (target a) t req = None) \<and>
         (\<forall>req. \<exists>st. SnapshotReplicationStatus (receiver a) t req = Inr st) \<and>
         \<not> ctx_Done (ctx a) t) \<and>
      (\<forall>v. \<exists>c. CreationAsTime X v = Inr c))"

lemma succeedsFrom_mono: "succeedsFrom X a t0 \<Longrightarrow> t0 \<le> t1 \<Longrightarrow> succeedsFrom X a t1"
  by (auto simp: succeedsFrom_def)

















definition target2 :: Target where
  "target2 =
     \<lparr>ListFilesystems = (\<lambda>t. Inr [\<lparr>Path = ''pool/a'', ResumeToken = []\<rparr>]),
      ListFilesystemVersions = (\<lambda>t p. Inr [snap1]),
      DestroySnapshots = (\<lambda>t r. if t = 3 then Some (netError ''connection reset'') else None)\<rparr>"

definition pruner2 :: "string Pruner" where
  "pruner2 = BuildSenderPruner factory0 context0 target2 history0"





lemma succeedsFrom_pruner2: "succeedsFrom externals0 (args pruner2) 4"
  by (simp add: succeedsFrom_def pruner2_def BuildSenderPruner_def target2_def history0_def
      context0_def externals0_def)








end
